theory Spec2Isabelle
  imports Complex_Main "HOL-Library.Word"
begin

section \<open>Strings of the runtime\<close>

text \<open>
  A text of the source is a sequence of UTF-16 code units; \<^verbatim>\<open>.length\<close> counts them.
  \<open>js\<close> turns an ASCII literal into such a text.
\<close>

type_synonym code_unit = "16 word"

type_synonym jsstring = "code_unit list"

definition u16 :: "char \<Rightarrow> code_unit" where
  "u16 c = of_char c"

definition js :: "string \<Rightarrow> jsstring" where
  "js s = map u16 s"

definition isAscii :: "code_unit \<Rightarrow> bool" where
  "isAscii c = (c < 0x80)"

definition upperChar :: "code_unit \<Rightarrow> code_unit" where
  "upperChar c = (if 0x61 \<le> c \<and> c \<le> 0x7A then c - 0x20 else c)"

definition lowerChar :: "code_unit \<Rightarrow> code_unit" where
  "lowerChar c = (if 0x41 \<le> c \<and> c \<le> 0x5A then c + 0x20 else c)"

text \<open>
  \<^verbatim>\<open>toUpperCase\<close> and \<^verbatim>\<open>toLowerCase\<close> follow the Unicode case tables of the runtime,
  which are not part of the repository. On a text of ASCII code units they change
  exactly the letters a-z and A-Z. On any other text the result is what the runtime
  computes: \<open>upperUnicode\<close> and \<open>lowerUnicode\<close> stand for the two functions of the
  runtime on such texts, and every statement below holds whatever they are.
\<close>

record Runtime =
  upperUnicode :: "jsstring \<Rightarrow> jsstring"
  lowerUnicode :: "jsstring \<Rightarrow> jsstring"

definition toUpperCase :: "Runtime \<Rightarrow> jsstring \<Rightarrow> jsstring" where
  "toUpperCase rt s = (if list_all isAscii s then map upperChar s else upperUnicode rt s)"

definition toLowerCase :: "Runtime \<Rightarrow> jsstring \<Rightarrow> jsstring" where
  "toLowerCase rt s = (if list_all isAscii s then map lowerChar s else lowerUnicode rt s)"

text \<open>
  The white space of \<^verbatim>\<open>trim()\<close> and of the class \<^verbatim>\<open>\s\<close> of a pattern without the
  unicode flag: the code points of WhiteSpace and LineTerminator, all of them single
  code units.
\<close>

definition isSpace :: "code_unit \<Rightarrow> bool" where
  "isSpace c =
     (c \<in> {0x9, 0xA, 0xB, 0xC, 0xD, 0x20, 0xA0, 0x1680, 0x2028, 0x2029, 0x202F, 0x205F,
            0x3000, 0xFEFF}
      \<or> (0x2000 \<le> c \<and> c \<le> 0x200A))"

text \<open>The class \<^verbatim>\<open>\d\<close> of such a pattern: the digits 0-9.\<close>

definition isDigit :: "code_unit \<Rightarrow> bool" where
  "isDigit c = (0x30 \<le> c \<and> c \<le> 0x39)"

definition trim :: "jsstring \<Rightarrow> jsstring" where
  "trim s = rev (dropWhile isSpace (rev (dropWhile isSpace s)))"


section \<open>Data model\<close>

text \<open>
  The interfaces \<^verbatim>\<open>FoundItem\<close>, \<^verbatim>\<open>HandedOverItem\<close> and \<^verbatim>\<open>User\<close>. An optional
  property is an \<^typ>\<open>'a option\<close>. The properties \<^verbatim>\<open>id\<close> and \<^verbatim>\<open>size\<close> of an item
  are the fields \<open>item_id\<close> and \<open>item_size\<close>; the properties of a user that share a
  name with those of an item carry the prefix \<open>user_\<close>.
\<close>

datatype Status = active | stored | sold | handed_over

record FoundItem =
  item_id :: jsstring
  foundDate :: jsstring
  foundLocation :: jsstring
  finderName :: jsstring
  finderContact :: jsstring
  itemName :: jsstring
  description :: jsstring
  brand :: "jsstring option"
  material :: "jsstring option"
  shape :: "jsstring option"
  color :: "jsstring option"
  item_size :: "jsstring option"
  imageUrl :: "jsstring option"
  createdAt :: jsstring
  createdByUserId :: jsstring
  status :: Status

record HandedOverItem = FoundItem +
  handedOverAt :: jsstring
  handedOverByUserId :: jsstring
  recipientName :: jsstring
  recipientAddress :: jsstring
  recipientEmail :: "jsstring option"
  recipientPhone :: "jsstring option"
  recipientIdDocType :: "jsstring option"
  recipientIdDocNumber :: "jsstring option"

datatype Role = user | admin

record User =
  user_id :: jsstring
  email :: jsstring
  user_name :: jsstring
  password :: "jsstring option"
  role :: Role
  hasExtendedAccess :: "bool option"
  extendedAccessUntil :: "jsstring option"
  user_createdAt :: "jsstring option"
  user_createdByUserId :: "jsstring option"

text \<open>
  The argument of \<^verbatim>\<open>saveFoundItem\<close>: a \<^verbatim>\<open>FoundItem\<close> without \<^verbatim>\<open>id\<close>,
  \<^verbatim>\<open>createdAt\<close>, \<^verbatim>\<open>status\<close> and \<^verbatim>\<open>createdByUserId\<close>.
\<close>

record ItemInput =
  in_foundDate :: jsstring
  in_foundLocation :: jsstring
  in_finderName :: jsstring
  in_finderContact :: jsstring
  in_itemName :: jsstring
  in_description :: jsstring
  in_brand :: "jsstring option"
  in_material :: "jsstring option"
  in_shape :: "jsstring option"
  in_color :: "jsstring option"
  in_size :: "jsstring option"
  in_imageUrl :: "jsstring option"

text \<open>The \<^verbatim>\<open>recipientData\<close> argument of the two handover functions.\<close>

record RecipientData =
  rd_recipientName :: jsstring
  rd_recipientAddress :: jsstring
  rd_recipientEmail :: "jsstring option"
  rd_recipientPhone :: "jsstring option"
  rd_recipientIdDocType :: "jsstring option"
  rd_recipientIdDocNumber :: "jsstring option"

text \<open>
  The keys of \<^verbatim>\<open>localStorage\<close> that the modelled code reads and writes. A key that is
  absent is \<open>None\<close>; a collection is stored whole, so a present key holds the list.
  The key \<^verbatim>\<open>last_activity\<close> holds the decimal text of \<^verbatim>\<open>Date.now()\<close>, read back with
  \<^verbatim>\<open>parseInt\<close>: it is modelled as the number of milliseconds.
\<close>

record Storage =
  found_items :: "FoundItem list option"
  handed_over_items :: "HandedOverItem list option"
  users :: "User list option"
  current_user :: "User option"
  last_activity :: "int option"

section \<open>The persistence functions of items\<close>

text \<open>\<^verbatim>\<open>Array.prototype.findIndex\<close>: the first index whose element satisfies the test,
  \<open>None\<close> for the source's \<open>-1\<close>.\<close>

fun findIndex :: "('a \<Rightarrow> bool) \<Rightarrow> 'a list \<Rightarrow> nat option" where
  "findIndex P [] = None"
| "findIndex P (x # xs) =
     (if P x then Some 0 else map_option Suc (findIndex P xs))"

text \<open>\<^verbatim>\<open>items.splice(i, 1)\<close> for an index inside the list.\<close>

definition splice1 :: "nat \<Rightarrow> 'a list \<Rightarrow> 'a list" where
  "splice1 i xs = take i xs @ drop (Suc i) xs"

definition hexDigit :: "int \<Rightarrow> code_unit" where
  "hexDigit d = (if d < 10 then of_int (48 + d) else of_int (87 + d))"

text \<open>\<^verbatim>\<open>Number.prototype.toString(16)\<close> on an integer.\<close>

function toString16 :: "int \<Rightarrow> jsstring" where
  "toString16 n =
     (if n < 0 then u16 CHR ''-'' # toString16 (- n)
      else if n < 16 then [hexDigit n]
      else toString16 (n div 16) @ [hexDigit (n mod 16)])"
  by pat_completeness auto
termination
  by (relation "measure (\<lambda>n. if n < 0 then nat (- n) + 1 else nat n)") auto

declare toString16.simps [simp del]

definition padStart :: "nat \<Rightarrow> code_unit \<Rightarrow> jsstring \<Rightarrow> jsstring" where
  "padStart n c s = replicate (n - length s) c @ s"

text \<open>
  \<^verbatim>\<open>generateItemId\<close> reads the clock and draws eight random numbers. The clock is
  \<open>nowMs\<close>, the value of \<^verbatim>\<open>Date.now()\<close>; \<open>rnd k\<close> stands for the \<open>k\<close>-th value of
  \<^verbatim>\<open>Math.floor(Math.random() * 16)\<close>, which lies in \<open>0..15\<close>.
\<close>

definition generateItemId :: "Runtime \<Rightarrow> int \<Rightarrow> (nat \<Rightarrow> int) \<Rightarrow> jsstring" where
  "generateItemId rt nowMs rnd =
     (let timestamp = padStart 8 (u16 CHR ''0'') (toString16 (nowMs div 1000));
          random = concat (map (\<lambda>k. toString16 (rnd k mod 16)) [0..<8])
      in toUpperCase rt (timestamp @ random))"

definition getFoundItems :: "Storage \<Rightarrow> FoundItem list" where
  "getFoundItems s = (case found_items s of None \<Rightarrow> [] | Some xs \<Rightarrow> xs)"

definition getFoundItemById :: "jsstring \<Rightarrow> Storage \<Rightarrow> FoundItem option" where
  "getFoundItemById i s = find (\<lambda>item. item_id item = i) (getFoundItems s)"

definition saveFoundItem ::
  "Runtime \<Rightarrow> ItemInput \<Rightarrow> jsstring \<Rightarrow> int \<Rightarrow> (nat \<Rightarrow> int) \<Rightarrow> jsstring \<Rightarrow> Storage \<Rightarrow> FoundItem \<times> Storage" where
  "saveFoundItem rt item byUserId nowMs rnd nowIso s =
     (let items = getFoundItems s;
          newItem = \<lparr> item_id = generateItemId rt nowMs rnd,
                      foundDate = in_foundDate item,
                      foundLocation = in_foundLocation item,
                      finderName = in_finderName item,
                      finderContact = in_finderContact item,
                      itemName = in_itemName item,
                      description = in_description item,
                      brand = in_brand item,
                      material = in_material item,
                      shape = in_shape item,
                      color = in_color item,
                      item_size = in_size item,
                      imageUrl = in_imageUrl item,
                      createdAt = nowIso,
                      createdByUserId = byUserId,
                      status = active \<rparr>
      in (newItem, s\<lparr>found_items := Some (items @ [newItem])\<rparr>))"

definition updateItemStatus :: "jsstring \<Rightarrow> Status \<Rightarrow> Storage \<Rightarrow> Storage" where
  "updateItemStatus i st s =
     (let items = getFoundItems s
      in case findIndex (\<lambda>item. item_id item = i) items of
           Some index \<Rightarrow> s\<lparr>found_items := Some (items[index := (items ! index)\<lparr>status := st\<rparr>])\<rparr>
         | None \<Rightarrow> s)"

definition deleteItem :: "jsstring \<Rightarrow> Storage \<Rightarrow> Storage" where
  "deleteItem i s =
     (let items = getFoundItems s;
          filtered = filter (\<lambda>item. item_id item \<noteq> i) items
      in s\<lparr>found_items := Some filtered\<rparr>)"

definition getHandedOverItems :: "Storage \<Rightarrow> HandedOverItem list" where
  "getHandedOverItems s = (case handed_over_items s of None \<Rightarrow> [] | Some xs \<Rightarrow> xs)"

text \<open>
  The object literal of both handover functions: the item's own properties, then
  \<^verbatim>\<open>status\<close>, \<^verbatim>\<open>handedOverAt\<close>, \<^verbatim>\<open>handedOverByUserId\<close>, then the properties
  of \<^verbatim>\<open>recipientData\<close>. \<open>nowIso\<close> is \<^verbatim>\<open>new Date().toISOString()\<close>.
\<close>

definition mkHandedOver :: "FoundItem \<Rightarrow> jsstring \<Rightarrow> jsstring \<Rightarrow> RecipientData \<Rightarrow> HandedOverItem" where
  "mkHandedOver item nowIso byUserId rd =
     FoundItem.extend (item\<lparr>status := handed_over\<rparr>)
       (HandedOverItem.fields nowIso byUserId
          (rd_recipientName rd) (rd_recipientAddress rd) (rd_recipientEmail rd)
          (rd_recipientPhone rd) (rd_recipientIdDocType rd) (rd_recipientIdDocNumber rd))"

definition handOverItem ::
  "jsstring \<Rightarrow> jsstring \<Rightarrow> RecipientData \<Rightarrow> jsstring \<Rightarrow> Storage \<Rightarrow> HandedOverItem option \<times> Storage" where
  "handOverItem itemId byUserId rd nowIso s =
     (let items = getFoundItems s
      in case findIndex (\<lambda>item. item_id item = itemId) items of
           None \<Rightarrow> (None, s)
         | Some itemIndex \<Rightarrow>
             (let item = items ! itemIndex;
                  handedOverItem = mkHandedOver item nowIso byUserId rd;
                  s1 = s\<lparr>found_items := Some (splice1 itemIndex items)\<rparr>;
                  handedOverItems = getHandedOverItems s1;
                  s2 = s1\<lparr>handed_over_items := Some (handedOverItems @ [handedOverItem])\<rparr>
              in (Some handedOverItem, s2)))"

definition handOverStoredItem ::
  "jsstring \<Rightarrow> jsstring \<Rightarrow> RecipientData \<Rightarrow> jsstring \<Rightarrow> Storage \<Rightarrow> HandedOverItem option \<times> Storage" where
  "handOverStoredItem itemId byUserId rd nowIso s =
     (let items = getFoundItems s
      in case findIndex (\<lambda>item. item_id item = itemId \<and> status item = stored) items of
           None \<Rightarrow> (None, s)
         | Some itemIndex \<Rightarrow>
             (let item = items ! itemIndex;
                  handedOverItem = mkHandedOver item nowIso byUserId rd;
                  s1 = s\<lparr>found_items := Some (splice1 itemIndex items)\<rparr>;
                  handedOverItems = getHandedOverItems s1;
                  s2 = s1\<lparr>handed_over_items := Some (handedOverItems @ [handedOverItem])\<rparr>
              in (Some handedOverItem, s2)))"

definition restoreFromStorage :: "jsstring \<Rightarrow> Storage \<Rightarrow> bool \<times> Storage" where
  "restoreFromStorage i s =
     (let items = getFoundItems s
      in case findIndex (\<lambda>item. item_id item = i \<and> status item = stored) items of
           Some index \<Rightarrow>
             (True, s\<lparr>found_items := Some (items[index := (items ! index)\<lparr>status := active\<rparr>])\<rparr>)
         | None \<Rightarrow> (False, s))"

section \<open>Elapsed days and the age gates\<close>

text \<open>
  The numbers of the source are doubles. A subtraction of two integers gives the
  double nearest to the exact difference, the even one of two that are equally near:
  the difference itself up to \<open>2 ^ 53\<close> in absolute value, and beyond that the nearest
  integer with 53 significant bits. \<open>bitLength\<close> is the number of binary digits.
\<close>

function bitLength :: "int \<Rightarrow> nat" where
  "bitLength n = (if n \<le> 0 then 0 else Suc (bitLength (n div 2)))"
  by pat_completeness auto
termination
  by (relation "measure nat") auto

declare bitLength.simps [simp del]

definition toDouble :: "int \<Rightarrow> int" where
  "toDouble x =
     (if \<bar>x\<bar> < 2 ^ 53 then x
      else (let m = 2 ^ (bitLength \<bar>x\<bar> - 53);
                q = \<bar>x\<bar> div m;
                r = \<bar>x\<bar> mod m
            in sgn x * (if 2 * r < m \<or> (2 * r = m \<and> even q) then q * m else (q + 1) * m)))"

text \<open>
  \<^verbatim>\<open>getDaysSinceFound\<close> parses the found date and reads the clock. \<open>getTime\<close> stands
  for the runtime's \<^verbatim>\<open>new Date(text).getTime()\<close>, in milliseconds, \<open>None\<close> for the
  \<^verbatim>\<open>NaN\<close> of an invalid date; \<open>nowMs\<close> is \<^verbatim>\<open>new Date().getTime()\<close>. A result of
  \<open>None\<close> is \<^verbatim>\<open>NaN\<close>. The time value of a date is an integer of at most
  8 640 000 000 000 000 milliseconds in absolute value, which is a double. The
  difference of two time values is rounded by \<^const>\<open>toDouble\<close>. For such a
  difference the division by the milliseconds of a day, rounded to a double, has the
  same \<^verbatim>\<open>Math.ceil\<close> as the exact quotient, so the model takes the ceiling on
  integers.
\<close>

definition msPerDay :: int where
  "msPerDay = 1000 * 60 * 60 * 24"

definition getDaysSinceFound :: "(jsstring \<Rightarrow> int option) \<Rightarrow> int \<Rightarrow> jsstring \<Rightarrow> int option" where
  "getDaysSinceFound getTime nowMs fd =
     (case getTime fd of
        None \<Rightarrow> None
      | Some found \<Rightarrow>
          (let diffTime = \<bar>toDouble (nowMs - found)\<bar>
           in Some (- ((- diffTime) div msPerDay))))"

text \<open>The two gates of the item list; a comparison with \<^verbatim>\<open>NaN\<close> is false.\<close>

definition canStore :: "(jsstring \<Rightarrow> int option) \<Rightarrow> int \<Rightarrow> FoundItem \<Rightarrow> bool" where
  "canStore getTime nowMs item =
     (case getDaysSinceFound getTime nowMs (foundDate item) of
        None \<Rightarrow> False
      | Some daysSinceFound \<Rightarrow> daysSinceFound \<ge> 100 \<and> status item = active)"

definition canSell :: "(jsstring \<Rightarrow> int option) \<Rightarrow> int \<Rightarrow> FoundItem \<Rightarrow> bool" where
  "canSell getTime nowMs item =
     (case getDaysSinceFound getTime nowMs (foundDate item) of
        None \<Rightarrow> False
      | Some daysSinceFound \<Rightarrow>
          daysSinceFound \<ge> 366 \<and> (status item = active \<or> status item = stored))"

section \<open>Users\<close>

text \<open>
  \<open>nowIso\<close> is \<^verbatim>\<open>new Date().toISOString()\<close>; the clock reads of one call see the same
  instant. The code units \<open>0xE1\<close> and \<open>0xF3\<close> in the two display names of the
  default users are the letters a and o with an acute accent.
\<close>

definition defaultUsers :: "jsstring \<Rightarrow> User list" where
  "defaultUsers nowIso =
     [\<lparr> user_id = (js ''1''), email = (js ''admin@example.com''),
        user_name = js ''Adminisztr'' @ [0xE1] @ js ''tor'',
        password = Some (js ''admin123''), role = admin,
        hasExtendedAccess = None, extendedAccessUntil = None,
        user_createdAt = Some nowIso, user_createdByUserId = None \<rparr>,
      \<lparr> user_id = (js ''2''), email = (js ''user@example.com''),
        user_name = js ''Felhaszn'' @ [0xE1] @ js ''l'' @ [0xF3],
        password = Some (js ''user123''), role = user,
        hasExtendedAccess = None, extendedAccessUntil = None,
        user_createdAt = Some nowIso, user_createdByUserId = Some (js ''1'') \<rparr>]"

definition initializeDefaultUsers :: "jsstring \<Rightarrow> Storage \<Rightarrow> User list \<times> Storage" where
  "initializeDefaultUsers nowIso s =
     (let us = (case users s of None \<Rightarrow> [] | Some us \<Rightarrow> us)
      in if length us = 0
         then (defaultUsers nowIso, s\<lparr>users := Some (defaultUsers nowIso)\<rparr>)
         else (us, s))"

definition getUsers :: "jsstring \<Rightarrow> Storage \<Rightarrow> User list \<times> Storage" where
  "getUsers nowIso s =
     (case users s of None \<Rightarrow> initializeDefaultUsers nowIso s | Some us \<Rightarrow> (us, s))"

definition getCurrentUser :: "Storage \<Rightarrow> User option" where
  "getCurrentUser s = current_user s"

definition setCurrentUser :: "User option \<Rightarrow> Storage \<Rightarrow> Storage" where
  "setCurrentUser u s = s\<lparr>current_user := u\<rparr>"

definition loginUser ::
  "Runtime \<Rightarrow> jsstring \<Rightarrow> jsstring \<Rightarrow> jsstring \<Rightarrow> Storage \<Rightarrow> User option \<times> Storage" where
  "loginUser rt mail pw nowIso s =
     (let s1 = snd (initializeDefaultUsers nowIso s);
          (us, s2) = getUsers nowIso s1
      in case find (\<lambda>u. toLowerCase rt (email u) = toLowerCase rt mail \<and> password u = Some pw)
                us of
           Some u \<Rightarrow> (Some u, setCurrentUser (Some u) s2)
         | None \<Rightarrow> (None, s2))"

definition verifyUserCredentials ::
  "Runtime \<Rightarrow> jsstring \<Rightarrow> jsstring \<Rightarrow> jsstring \<Rightarrow> jsstring \<Rightarrow> Storage
     \<Rightarrow> bool \<times> Storage" where
  "verifyUserCredentials rt mail pw userId nowIso s =
     (let (us, s1) = getUsers nowIso s
      in (find (\<lambda>u. user_id u = userId \<and> toLowerCase rt (email u) = toLowerCase rt mail
                     \<and> password u = Some pw) us \<noteq> None, s1))"

definition logoutUser :: "Storage \<Rightarrow> Storage" where
  "logoutUser s = setCurrentUser None s"

text \<open>The form of the user dialog, the \<^verbatim>\<open>userData\<close> that \<^verbatim>\<open>createUser\<close> receives.\<close>

record NewUser =
  nu_email :: jsstring
  nu_name :: jsstring
  nu_password :: jsstring
  nu_role :: Role

text \<open>\<open>uuid\<close> is the value of \<^verbatim>\<open>crypto.randomUUID()\<close>.\<close>

definition createUser :: "NewUser \<Rightarrow> jsstring \<Rightarrow> jsstring \<Rightarrow> jsstring \<Rightarrow> Storage \<Rightarrow> User \<times> Storage" where
  "createUser userData byUserId uuid nowIso s =
     (let (us, s1) = getUsers nowIso s;
          newUser = \<lparr> user_id = uuid, email = nu_email userData,
                      user_name = nu_name userData,
                      password = Some (nu_password userData), role = nu_role userData,
                      hasExtendedAccess = None, extendedAccessUntil = None,
                      user_createdAt = Some nowIso, user_createdByUserId = Some byUserId \<rparr>
      in (newUser, s1\<lparr>users := Some (us @ [newUser])\<rparr>))"

text \<open>\<open>updates\<close> is the effect of spreading the partial user over the stored one.\<close>

definition updateUser :: "jsstring \<Rightarrow> (User \<Rightarrow> User) \<Rightarrow> jsstring \<Rightarrow> Storage \<Rightarrow> User option \<times> Storage" where
  "updateUser userId updates nowIso s =
     (let (us, s1) = getUsers nowIso s
      in case findIndex (\<lambda>u. user_id u = userId) us of
           Some index \<Rightarrow>
             (Some (updates (us ! index)), s1\<lparr>users := Some (us[index := updates (us ! index)])\<rparr>)
         | None \<Rightarrow> (None, s1))"

definition deleteUser :: "jsstring \<Rightarrow> jsstring \<Rightarrow> Storage \<Rightarrow> bool \<times> Storage" where
  "deleteUser userId nowIso s =
     (let (us, s1) = getUsers nowIso s;
          filtered = filter (\<lambda>u. user_id u \<noteq> userId) us
      in if length filtered \<noteq> length us then (True, s1\<lparr>users := Some filtered\<rparr>)
         else (False, s1))"

section \<open>The session\<close>

text \<open>
  The state of \<^verbatim>\<open>AuthProvider\<close> is the component's \<^verbatim>\<open>user\<close> together with the
  storage. \<open>nowMs\<close> is \<^verbatim>\<open>Date.now()\<close>.
\<close>

datatype Toast =
    InactivityLogout
  | BadCredentials | UserSwitched | AuthOk
  | ScanOk | ScanMismatch | IdLengthError
  | NeedAuth | NeedScan | NameRequired | AddressRequired | DocTypeRequired
  | DocNumberRequired | BadEmail | BadPhone | GenericError | HandoverOk | HandoverFailed
  | FillAllFields | LoginRequired | EmailTaken | UserCreated
  | CannotDeleteSelf | UserDeleted | CannotChangeOwnRole | RoleChanged

type_synonym Session = "User option \<times> Storage"

definition INACTIVITY_TIMEOUT :: int where
  "INACTIVITY_TIMEOUT = 2 * 60 * 1000"

definition handleLogout :: "Session \<Rightarrow> Session" where
  "handleLogout ss = (None, (logoutUser (snd ss))\<lparr>last_activity := None\<rparr>)"

definition checkInactivity :: "int \<Rightarrow> Session \<Rightarrow> Toast option \<times> Session" where
  "checkInactivity nowMs ss =
     (case last_activity (snd ss) of
        None \<Rightarrow> (None, ss)
      | Some lastActivity \<Rightarrow>
          (let elapsed = nowMs - lastActivity
           in if elapsed > INACTIVITY_TIMEOUT then (Some InactivityLogout, handleLogout ss)
              else (None, ss)))"

definition handleLogin ::
  "Runtime \<Rightarrow> jsstring \<Rightarrow> jsstring \<Rightarrow> int \<Rightarrow> jsstring \<Rightarrow> Session \<Rightarrow> bool \<times> Session" where
  "handleLogin rt mail pw nowMs nowIso ss =
     (case loginUser rt mail pw nowIso (snd ss) of
        (Some loggedInUser, s1) \<Rightarrow> (True, (Some loggedInUser, s1\<lparr>last_activity := Some nowMs\<rparr>))
      | (None, s1) \<Rightarrow> (False, (fst ss, s1)))"

section \<open>User management\<close>

record UserManagement =
  um_users :: "User list"
  showAddUser :: bool
  deleteConfirm :: "jsstring option"
  newUser :: NewUser

definition loadUsers :: "jsstring \<Rightarrow> UserManagement \<times> Storage \<Rightarrow> UserManagement \<times> Storage" where
  "loadUsers nowIso p =
     (let (allUsers, s1) = getUsers nowIso (snd p) in ((fst p)\<lparr>um_users := allUsers\<rparr>, s1))"

definition handleAddUser ::
  "User option \<Rightarrow> jsstring \<Rightarrow> jsstring \<Rightarrow> UserManagement \<times> Storage \<Rightarrow> Toast \<times> UserManagement \<times> Storage" where
  "handleAddUser currentUser uuid nowIso p =
     (let um = fst p; s = snd p; nu = newUser um
      in if nu_email nu = [] \<or> nu_name nu = [] \<or> nu_password nu = [] then (FillAllFields, p)
         else case currentUser of
           None \<Rightarrow> (LoginRequired, p)
         | Some cu \<Rightarrow>
             if list_ex (\<lambda>u. email u = nu_email nu) (um_users um) then (EmailTaken, p)
             else (let s1 = snd (createUser nu (user_id cu) uuid nowIso s);
                       (um2, s2) = loadUsers nowIso (um, s1)
                   in (UserCreated,
                       um2\<lparr>showAddUser := False,
                           newUser := \<lparr>nu_email = [], nu_name = [], nu_password = [], nu_role = user\<rparr>\<rparr>,
                       s2)))"

definition confirmDelete ::
  "User option \<Rightarrow> jsstring \<Rightarrow> UserManagement \<times> Storage \<Rightarrow> Toast option \<times> UserManagement \<times> Storage" where
  "confirmDelete currentUser nowIso p =
     (let um = fst p; s = snd p
      in case deleteConfirm um of
           None \<Rightarrow> (None, p)
         | Some target \<Rightarrow>
             if target = [] then (None, p)
             else if Some target = map_option user_id currentUser
             then (Some CannotDeleteSelf, um\<lparr>deleteConfirm := None\<rparr>, s)
             else (let s1 = snd (deleteUser target nowIso s);
                       (um2, s2) = loadUsers nowIso (um, s1)
                   in (Some UserDeleted, um2\<lparr>deleteConfirm := None\<rparr>, s2)))"

definition handleRoleChange ::
  "jsstring \<Rightarrow> Role \<Rightarrow> User option \<Rightarrow> jsstring \<Rightarrow> UserManagement \<times> Storage
     \<Rightarrow> Toast \<times> UserManagement \<times> Storage" where
  "handleRoleChange userId newRole currentUser nowIso p =
     (if Some userId = map_option user_id currentUser then (CannotChangeOwnRole, p)
      else (let s1 = snd (updateUser userId (\<lambda>u. u\<lparr>role := newRole\<rparr>) nowIso (snd p));
                (um2, s2) = loadUsers nowIso (fst p, s1)
            in (RoleChanged, um2, s2)))"

section \<open>The handover dialog\<close>

datatype Step = auth | scan | form

record FormData =
  fd_recipientName :: jsstring
  fd_recipientAddress :: jsstring
  fd_recipientEmail :: jsstring
  fd_recipientPhone :: jsstring
  fd_recipientIdDocType :: jsstring
  fd_recipientIdDocNumber :: jsstring

record Dialog =
  step :: Step
  authEmail :: jsstring
  authPassword :: jsstring
  isAuthenticated :: bool
  handoverUserId :: "jsstring option"
  scannedId :: jsstring
  isScanned :: bool
  manualEntry :: bool
  formData :: FormData

text \<open>Step 1. The session is the one of \<^verbatim>\<open>useAuth\<close>; its \<^verbatim>\<open>loginUser\<close> is
  \<^const>\<open>handleLogin\<close>.\<close>

definition handleAuthSubmit ::
  "Runtime \<Rightarrow> int \<Rightarrow> jsstring \<Rightarrow> Dialog \<times> Session \<Rightarrow> Toast \<times> Dialog \<times> Session" where
  "handleAuthSubmit rt nowMs nowIso p =
     (let d = fst p; ss = snd p;
          (us, s1) = getUsers nowIso (snd ss)
      in case find (\<lambda>u. toLowerCase rt (email u) = toLowerCase rt (authEmail d)) us of
           None \<Rightarrow> (BadCredentials, d, (fst ss, s1))
         | Some matchedUser \<Rightarrow>
             (let (verified, s2) =
                    verifyUserCredentials rt (authEmail d) (authPassword d) (user_id matchedUser) nowIso s1
              in if verified
                 then (let d1 = d\<lparr>isAuthenticated := True,
                                   handoverUserId := Some (user_id matchedUser)\<rparr>
                       in if map_option user_id (fst ss) \<noteq> Some (user_id matchedUser)
                          then (UserSwitched, d1\<lparr>step := scan\<rparr>,
                                snd (handleLogin rt (authEmail d) (authPassword d) nowMs nowIso (fst ss, s2)))
                          else (AuthOk, d1\<lparr>step := scan\<rparr>, (fst ss, s2)))
                 else (BadCredentials, d, (fst ss, s2))))"





text \<open>
  Step 3. The two patterns are \<^verbatim>\<open>/^[^\s@]+@[^\s@]+\.[^\s@]+$/\<close> and
  \<^verbatim>\<open>/^[\d\s\+\-\(\)]+$/\<close>. A text matches the first one when it is a non-empty
  run of characters other than white space and \<^verbatim>\<open>@\<close>, then \<^verbatim>\<open>@\<close>, then such a run
  that holds a dot with at least one character on either side.
\<close>

definition emailChar :: "code_unit \<Rightarrow> bool" where
  "emailChar c = (\<not> isSpace c \<and> c \<noteq> u16 CHR ''@'')"

definition emailRegex_test :: "jsstring \<Rightarrow> bool" where
  "emailRegex_test s =
     (takeWhile emailChar s \<noteq> [] \<and>
      (case dropWhile emailChar s of
         [] \<Rightarrow> False
       | c # r \<Rightarrow>
           c = u16 CHR ''@'' \<and> list_all emailChar r \<and> u16 CHR ''.'' \<in> set (butlast (tl r))))"

definition phoneChar :: "code_unit \<Rightarrow> bool" where
  "phoneChar c = (isDigit c \<or> isSpace c \<or> c \<in> set (js ''+-()''))"

definition phoneRegex_test :: "jsstring \<Rightarrow> bool" where
  "phoneRegex_test s = (s \<noteq> [] \<and> list_all phoneChar s)"

definition validateEmail :: "jsstring \<Rightarrow> bool" where
  "validateEmail mail = (if mail = [] then True else emailRegex_test mail)"

definition validatePhone :: "jsstring \<Rightarrow> bool" where
  "validatePhone phone = (if phone = [] then True else phoneRegex_test phone)"

text \<open>\<^verbatim>\<open>text || undefined\<close>.\<close>

definition orUndefined :: "jsstring \<Rightarrow> jsstring option" where
  "orUndefined t = (if t = [] then None else Some t)"

text \<open>The \<^verbatim>\<open>recipientData\<close> object that \<^verbatim>\<open>handleSubmit\<close> builds from the form.\<close>

definition recipientDataOf :: "FormData \<Rightarrow> RecipientData" where
  "recipientDataOf f =
     \<lparr> rd_recipientName = trim (fd_recipientName f),
       rd_recipientAddress = trim (fd_recipientAddress f),
       rd_recipientEmail = orUndefined (trim (fd_recipientEmail f)),
       rd_recipientPhone = orUndefined (trim (fd_recipientPhone f)),
       rd_recipientIdDocType = Some (fd_recipientIdDocType f),
       rd_recipientIdDocNumber = Some (trim (fd_recipientIdDocNumber f)) \<rparr>"

text \<open>\<^verbatim>\<open>!handoverUserId\<close> on a value that is a text or \<^verbatim>\<open>null\<close>.\<close>

definition falsy :: "jsstring option \<Rightarrow> bool" where
  "falsy v = (v = None \<or> v = Some [])"

definition handleSubmit :: "FoundItem option \<Rightarrow> jsstring \<Rightarrow> Dialog \<Rightarrow> Storage \<Rightarrow> Toast \<times> Storage" where
  "handleSubmit item nowIso d s =
     (let f = formData d
      in if \<not> isAuthenticated d \<or> falsy (handoverUserId d) then (NeedAuth, s)
         else if \<not> isScanned d then (NeedScan, s)
         else if trim (fd_recipientName f) = [] then (NameRequired, s)
         else if trim (fd_recipientAddress f) = [] then (AddressRequired, s)
         else if fd_recipientIdDocType f = [] then (DocTypeRequired, s)
         else if trim (fd_recipientIdDocNumber f) = [] then (DocNumberRequired, s)
         else if \<not> validateEmail (fd_recipientEmail f) then (BadEmail, s)
         else if \<not> validatePhone (fd_recipientPhone f) then (BadPhone, s)
         else case item of
           None \<Rightarrow> (GenericError, s)
         | Some it \<Rightarrow>
             (let recipientData = recipientDataOf f;
                  byUserId = (case handoverUserId d of Some u \<Rightarrow> u | None \<Rightarrow> []);
                  (result, s1) =
                    (if status it = stored
                     then handOverStoredItem (item_id it) byUserId recipientData nowIso s
                     else handOverItem (item_id it) byUserId recipientData nowIso s)
              in case result of
                   Some r \<Rightarrow> (HandoverOk, s1)
                 | None \<Rightarrow> (HandoverFailed, s1)))"

section \<open>Exclusivity of the two collections\<close>

definition activeIds :: "Storage \<Rightarrow> jsstring set" where
  "activeIds s = item_id ` set (getFoundItems s)"

definition archivedIds :: "Storage \<Rightarrow> jsstring set" where
  "archivedIds s = item_id ` set (getHandedOverItems s)"

text \<open>Every id that occurs in the storage occurs in exactly one of the two collections.\<close>

definition exclusive :: "Storage \<Rightarrow> bool" where
  "exclusive s =
     (\<forall>i \<in> activeIds s \<union> archivedIds s. (i \<in> activeIds s) \<noteq> (i \<in> archivedIds s))"

text \<open>Exclusivity together with pairwise distinct ids in the active collection.\<close>

definition storeInv :: "Storage \<Rightarrow> bool" where
  "storeInv s = (exclusive s \<and> distinct (map item_id (getFoundItems s)))"

section \<open>Example data\<close>

definition exItem :: "jsstring \<Rightarrow> jsstring \<Rightarrow> Status \<Rightarrow> FoundItem" where
  "exItem i fd st =
     \<lparr> item_id = i, foundDate = fd, foundLocation = (js ''Keleti''), finderName = (js ''Kiss Anna''),
       finderContact = (js ''kiss@example.com''), itemName = (js ''umbrella''), description = (js ''black''),
       brand = None, material = None, shape = None, color = Some (js ''black''), item_size = None,
       imageUrl = None, createdAt = (js ''2023-11-14T22:13:20.000Z''), createdByUserId = (js ''2''),
       status = st \<rparr>"

definition exInput :: ItemInput where
  "exInput =
     \<lparr> in_foundDate = (js ''2023-11-14''), in_foundLocation = (js ''Keleti''), in_finderName = (js ''Kiss Anna''),
       in_finderContact = (js ''kiss@example.com''), in_itemName = (js ''scarf''), in_description = (js ''red''),
       in_brand = None, in_material = None, in_shape = None, in_color = Some (js ''red''),
       in_size = None, in_imageUrl = None \<rparr>"

definition exRecipient :: RecipientData where
  "exRecipient =
     \<lparr> rd_recipientName = (js ''Nagy Bela''), rd_recipientAddress = (js ''Budapest''),
       rd_recipientEmail = None, rd_recipientPhone = None,
       rd_recipientIdDocType = Some (js ''passport''), rd_recipientIdDocNumber = Some (js ''AB123'') \<rparr>"

definition exStorage :: "FoundItem list \<Rightarrow> HandedOverItem list \<Rightarrow> Storage" where
  "exStorage xs hs =
     \<lparr> found_items = Some xs, handed_over_items = Some hs, users = Some (defaultUsers (js ''t0'')),
       current_user = None, last_activity = None \<rparr>"

text \<open>A runtime for the examples. Their texts are ASCII, so it is not consulted.\<close>

definition exRuntime :: Runtime where
  "exRuntime = \<lparr>upperUnicode = (\<lambda>s. s), lowerUnicode = (\<lambda>s. s)\<rparr>"

definition exRnd :: "nat \<Rightarrow> int" where
  "exRnd k = 0"

definition exForm :: "jsstring \<Rightarrow> jsstring \<Rightarrow> FormData" where
  "exForm nm mail =
     \<lparr> fd_recipientName = nm, fd_recipientAddress = (js ''Budapest''), fd_recipientEmail = mail,
       fd_recipientPhone = (js ''+36 (1) 555-1234''), fd_recipientIdDocType = (js ''passport''),
       fd_recipientIdDocNumber = (js '' AB123 '') \<rparr>"

definition exDialog :: "FormData \<Rightarrow> Dialog" where
  "exDialog f =
     \<lparr> step = form, authEmail = (js ''user@example.com''), authPassword = (js ''user123''),
       isAuthenticated = True, handoverUserId = Some (js ''2''), scannedId = (js ''6553F10000000000''),
       isScanned = True, manualEntry = False, formData = f \<rparr>"

text \<open>
  The time of \<^verbatim>\<open>new Date("2030-01-01")\<close>, midnight UTC, in milliseconds, and the
  earliest time value that a date can have.
\<close>

definition exGetTime :: "jsstring \<Rightarrow> int option" where
  "exGetTime t =
     (if t = js ''2030-01-01'' then Some 1893456000000
      else if t = js ''-271821-04-20T00:00:00.000Z'' then Some (- 8640000000000000)
      else None)"

definition exAdmin :: User where
  "exAdmin = hd (defaultUsers (js ''t0''))"

definition exSession :: Session where
  "exSession =
     (Some exAdmin,
      (exStorage [] [])\<lparr>current_user := Some exAdmin, last_activity := Some 1700000000000\<rparr>)"

definition exNewUser :: "jsstring \<Rightarrow> NewUser" where
  "exNewUser mail = \<lparr>nu_email = mail, nu_name = (js ''Second''), nu_password = (js ''pw2''), nu_role = user\<rparr>"

definition exUM :: "jsstring option \<Rightarrow> NewUser \<Rightarrow> UserManagement" where
  "exUM target nu =
     \<lparr>um_users = defaultUsers (js ''t0''), showAddUser = True, deleteConfirm = target, newUser = nu\<rparr>"

definition exAuthDialog :: "jsstring \<Rightarrow> jsstring \<Rightarrow> Dialog" where
  "exAuthDialog mail pw =
     \<lparr> step = auth, authEmail = mail, authPassword = pw, isAuthenticated = False,
       handoverUserId = None, scannedId = [], isScanned = False, manualEntry = False,
       formData = exForm [] [] \<rparr>"



section \<open>Properties\<close>

subsection \<open>Auxiliary facts\<close>

lemma findIndex_None_iff: "findIndex P xs = None \<longleftrightarrow> (\<forall>x\<in>set xs. \<not> P x)"
  by (induction xs) auto

lemma findIndex_Some_split:
  "findIndex P xs = Some k \<Longrightarrow>
     k < length xs \<and> P (xs ! k) \<and> (\<forall>x\<in>set (take k xs). \<not> P x)"
proof (induction xs arbitrary: k)
  case Nil
  then show ?case by simp
next
  case (Cons x xs)
  show ?case
  proof (cases "P x")
    case True
    with Cons.prems show ?thesis by simp
  next
    case False
    with Cons.prems obtain j where j: "findIndex P xs = Some j" "k = Suc j"
      by auto
    from Cons.IH [OF j(1)] False j(2) show ?thesis by simp
  qed
qed

lemma findIndex_Some_ex: "\<exists>x\<in>set xs. P x \<Longrightarrow> \<exists>k. findIndex P xs = Some k"
  using findIndex_None_iff [of P xs] by (cases "findIndex P xs") auto

lemma getHandedOverItems_found_items_update [simp]:
  "getHandedOverItems (s\<lparr>found_items := v\<rparr>) = getHandedOverItems s"
  by (simp add: getHandedOverItems_def)

lemma handOverItem_Some:
  "findIndex (\<lambda>item. item_id item = i) (getFoundItems s) = Some k \<Longrightarrow>
   handOverItem i u rd t s =
     (Some (mkHandedOver (getFoundItems s ! k) t u rd),
      s\<lparr>found_items := Some (splice1 k (getFoundItems s)),
        handed_over_items :=
          Some (getHandedOverItems s @ [mkHandedOver (getFoundItems s ! k) t u rd])\<rparr>)"
  by (simp add: handOverItem_def Let_def)

lemma handOverItem_None:
  "findIndex (\<lambda>item. item_id item = i) (getFoundItems s) = None \<Longrightarrow>
   handOverItem i u rd t s = (None, s)"
  by (simp add: handOverItem_def)

lemma handOverStoredItem_Some:
  "findIndex (\<lambda>item. item_id item = i \<and> status item = stored) (getFoundItems s) = Some k \<Longrightarrow>
   handOverStoredItem i u rd t s =
     (Some (mkHandedOver (getFoundItems s ! k) t u rd),
      s\<lparr>found_items := Some (splice1 k (getFoundItems s)),
        handed_over_items :=
          Some (getHandedOverItems s @ [mkHandedOver (getFoundItems s ! k) t u rd])\<rparr>)"
  by (simp add: handOverStoredItem_def Let_def)

lemma handOverStoredItem_None:
  "findIndex (\<lambda>item. item_id item = i \<and> status item = stored) (getFoundItems s) = None \<Longrightarrow>
   handOverStoredItem i u rd t s = (None, s)"
  by (simp add: handOverStoredItem_def)

lemma mkHandedOver_base:
  "FoundItem.truncate (mkHandedOver item t u rd) = item\<lparr>status := handed_over\<rparr>"
  by (simp add: mkHandedOver_def FoundItem.defs HandedOverItem.defs)

lemma mkHandedOver_fields [simp]:
  "item_id (mkHandedOver item t u rd) = item_id item"
  "status (mkHandedOver item t u rd) = handed_over"
  "handedOverAt (mkHandedOver item t u rd) = t"
  "handedOverByUserId (mkHandedOver item t u rd) = u"
  "recipientName (mkHandedOver item t u rd) = rd_recipientName rd"
  "recipientAddress (mkHandedOver item t u rd) = rd_recipientAddress rd"
  "recipientEmail (mkHandedOver item t u rd) = rd_recipientEmail rd"
  "recipientPhone (mkHandedOver item t u rd) = rd_recipientPhone rd"
  "recipientIdDocType (mkHandedOver item t u rd) = rd_recipientIdDocType rd"
  "recipientIdDocNumber (mkHandedOver item t u rd) = rd_recipientIdDocNumber rd"
  by (simp_all add: mkHandedOver_def FoundItem.defs HandedOverItem.defs)


lemma exclusive_disjoint: "exclusive s \<longleftrightarrow> activeIds s \<inter> archivedIds s = {}"
  by (auto simp: exclusive_def)

lemma getFoundItems_update [simp]:
  "getFoundItems (s\<lparr>found_items := Some xs\<rparr>) = xs"
  "getFoundItems (s\<lparr>handed_over_items := v\<rparr>) = getFoundItems s"
  by (simp_all add: getFoundItems_def)

lemma getHandedOverItems_update [simp]:
  "getHandedOverItems (s\<lparr>handed_over_items := Some ys\<rparr>) = ys"
  by (simp add: getHandedOverItems_def)

lemma map_id_status_update:
  "k < length xs \<Longrightarrow> map item_id (xs[k := (xs ! k)\<lparr>status := st\<rparr>]) = map item_id xs"
  by (simp add: map_update list_update_same_conv)

lemma updateItemStatus_Some:
  "findIndex (\<lambda>item. item_id item = i) (getFoundItems s) = Some k \<Longrightarrow>
   updateItemStatus i st s =
     s\<lparr>found_items := Some ((getFoundItems s)[k := (getFoundItems s ! k)\<lparr>status := st\<rparr>])\<rparr>"
  by (simp add: updateItemStatus_def Let_def)

lemma restoreFromStorage_Some:
  "findIndex (\<lambda>item. item_id item = i \<and> status item = stored) (getFoundItems s) = Some k \<Longrightarrow>
   restoreFromStorage i s =
     (True, s\<lparr>found_items := Some ((getFoundItems s)[k := (getFoundItems s ! k)\<lparr>status := active\<rparr>])\<rparr>)"
  by (simp add: restoreFromStorage_def Let_def)

lemma restoreFromStorage_None:
  "findIndex (\<lambda>item. item_id item = i \<and> status item = stored) (getFoundItems s) = None \<Longrightarrow>
   restoreFromStorage i s = (False, s)"
  by (simp add: restoreFromStorage_def)

lemma storeInv_updateItemStatus: "storeInv s \<Longrightarrow> storeInv (updateItemStatus i st s)"
proof (cases "findIndex (\<lambda>item. item_id item = i) (getFoundItems s)")
  case None
  assume "storeInv s"
  with None show ?thesis by (simp add: updateItemStatus_def)
next
  case (Some k)
  assume inv: "storeInv s"
  from findIndex_Some_split [OF Some] have k: "k < length (getFoundItems s)" by simp
  have ids: "map item_id ((getFoundItems s)[k := (getFoundItems s ! k)\<lparr>status := st\<rparr>])
               = map item_id (getFoundItems s)"
    by (rule map_id_status_update [OF k])
  have "activeIds (updateItemStatus i st s) = activeIds s"
    using ids by (simp add: updateItemStatus_Some [OF Some] activeIds_def flip: set_map)
  moreover have "archivedIds (updateItemStatus i st s) = archivedIds s"
    by (simp add: updateItemStatus_Some [OF Some] archivedIds_def)
  moreover have "map item_id (getFoundItems (updateItemStatus i st s)) = map item_id (getFoundItems s)"
    using ids by (simp add: updateItemStatus_Some [OF Some])
  ultimately show ?thesis
    using inv by (simp add: storeInv_def exclusive_disjoint)
qed

lemma storeInv_restoreFromStorage: "storeInv s \<Longrightarrow> storeInv (snd (restoreFromStorage i s))"
proof (cases "findIndex (\<lambda>item. item_id item = i \<and> status item = stored) (getFoundItems s)")
  case None
  assume "storeInv s"
  with None show ?thesis by (simp add: restoreFromStorage_None)
next
  case (Some k)
  assume inv: "storeInv s"
  from findIndex_Some_split [OF Some] have k: "k < length (getFoundItems s)" by simp
  have ids: "map item_id ((getFoundItems s)[k := (getFoundItems s ! k)\<lparr>status := active\<rparr>])
               = map item_id (getFoundItems s)"
    by (rule map_id_status_update [OF k])
  have "activeIds (snd (restoreFromStorage i s)) = activeIds s"
    using ids by (simp add: restoreFromStorage_Some [OF Some] activeIds_def flip: set_map)
  moreover have "archivedIds (snd (restoreFromStorage i s)) = archivedIds s"
    by (simp add: restoreFromStorage_Some [OF Some] archivedIds_def)
  moreover have "map item_id (getFoundItems (snd (restoreFromStorage i s))) = map item_id (getFoundItems s)"
    using ids by (simp add: restoreFromStorage_Some [OF Some])
  ultimately show ?thesis
    using inv by (simp add: storeInv_def exclusive_disjoint)
qed

lemma storeInv_deleteItem: "storeInv s \<Longrightarrow> storeInv (deleteItem i s)"
  by (auto simp: storeInv_def exclusive_disjoint deleteItem_def activeIds_def archivedIds_def
        distinct_map_filter)

lemma storeInv_moved:
  assumes inv: "storeInv s" and k: "k < length (getFoundItems s)"
    and h: "item_id h = item_id (getFoundItems s ! k)"
  shows "storeInv (s\<lparr>found_items := Some (splice1 k (getFoundItems s)),
                    handed_over_items := Some (getHandedOverItems s @ [h])\<rparr>)"
proof -
  let ?xs = "getFoundItems s"
  have split: "?xs = take k ?xs @ (?xs ! k) # drop (Suc k) ?xs"
    using k by (rule id_take_nth_drop)
  have d: "distinct (map item_id (take k ?xs @ (?xs ! k) # drop (Suc k) ?xs))"
    using inv split by (simp add: storeInv_def)
  have dis: "item_id ` set ?xs \<inter> archivedIds s = {}"
    using inv by (simp add: storeInv_def exclusive_disjoint activeIds_def)
  have sub: "set (splice1 k ?xs) \<subseteq> set ?xs"
    by (auto simp: splice1_def dest: in_set_takeD in_set_dropD)
  have notin: "item_id (?xs ! k) \<notin> item_id ` set (splice1 k ?xs)"
    using d by (auto simp: splice1_def)
  have "distinct (map item_id (splice1 k ?xs))"
    using d by (auto simp: splice1_def)
  moreover have "item_id ` set (splice1 k ?xs) \<inter> (archivedIds s \<union> {item_id h}) = {}"
    using dis sub notin h by auto
  ultimately show ?thesis
    by (simp add: storeInv_def exclusive_disjoint activeIds_def archivedIds_def Un_commute)
qed

lemma storeInv_handOverItem: "storeInv s \<Longrightarrow> storeInv (snd (handOverItem i u rd t s))"
proof (cases "findIndex (\<lambda>item. item_id item = i) (getFoundItems s)")
  case None
  assume "storeInv s"
  with None show ?thesis by (simp add: handOverItem_None)
next
  case (Some k)
  assume inv: "storeInv s"
  from findIndex_Some_split [OF Some] have k: "k < length (getFoundItems s)" by simp
  show ?thesis
    using storeInv_moved [OF inv k, of "mkHandedOver (getFoundItems s ! k) t u rd"]
    by (simp add: handOverItem_Some [OF Some])
qed

lemma storeInv_handOverStoredItem: "storeInv s \<Longrightarrow> storeInv (snd (handOverStoredItem i u rd t s))"
proof (cases "findIndex (\<lambda>item. item_id item = i \<and> status item = stored) (getFoundItems s)")
  case None
  assume "storeInv s"
  with None show ?thesis by (simp add: handOverStoredItem_None)
next
  case (Some k)
  assume inv: "storeInv s"
  from findIndex_Some_split [OF Some] have k: "k < length (getFoundItems s)" by simp
  show ?thesis
    using storeInv_moved [OF inv k, of "mkHandedOver (getFoundItems s ! k) t u rd"]
    by (simp add: handOverStoredItem_Some [OF Some])
qed

lemma saveFoundItem_id [simp]:
  "item_id (fst (saveFoundItem rt item u nowMs rnd t s)) = generateItemId rt nowMs rnd"
  by (simp add: saveFoundItem_def Let_def)

lemma saveFoundItem_snd:
  "snd (saveFoundItem rt item u nowMs rnd t s) =
     s\<lparr>found_items := Some (getFoundItems s @ [fst (saveFoundItem rt item u nowMs rnd t s)])\<rparr>"
  by (simp add: saveFoundItem_def Let_def)

lemma storeInv_saveFoundItem:
  assumes "storeInv s" and "generateItemId rt nowMs rnd \<notin> activeIds s \<union> archivedIds s"
  shows "storeInv (snd (saveFoundItem rt item u nowMs rnd t s))"
  using assms unfolding saveFoundItem_snd
  by (auto simp: storeInv_def exclusive_disjoint activeIds_def archivedIds_def)

lemma findIndex_first:
  assumes "x \<in> set xs" and "P x"
  shows "\<exists>k. findIndex P xs = Some k \<and> k < length xs \<and> P (xs ! k) \<and>
             (\<forall>y\<in>set (take k xs). \<not> P y)"
proof -
  from assms have "\<exists>y\<in>set xs. P y" by blast
  then obtain k where k: "findIndex P xs = Some k"
    using findIndex_Some_ex [of xs P] by blast
  from findIndex_Some_split [OF k] k show ?thesis by simp
qed

lemma distinct_ids_same:
  assumes "distinct (map item_id xs)" and "x \<in> set xs" and "y \<in> set xs"
    and "item_id x = item_id y"
  shows "x = y"
proof -
  from assms(1) have "inj_on item_id (set xs)" by (simp add: distinct_map)
  from inj_onD [OF this assms(4) assms(2) assms(3)] show ?thesis .
qed

lemma handOverItem_present:
  assumes it: "it \<in> set (getFoundItems s)"
  shows "\<exists>pre first post.
           getFoundItems s = pre @ first # post \<and>
           (\<forall>x\<in>set pre. item_id x \<noteq> item_id it) \<and> item_id first = item_id it \<and>
           (distinct (map item_id (getFoundItems s)) \<longrightarrow> first = it) \<and>
           handOverItem (item_id it) u rd t s =
             (Some (mkHandedOver first t u rd),
              s\<lparr>found_items := Some (pre @ post),
                handed_over_items := Some (getHandedOverItems s @ [mkHandedOver first t u rd])\<rparr>)"
proof -
  let ?xs = "getFoundItems s"
  from findIndex_first [OF it, of "\<lambda>item. item_id item = item_id it"]
  obtain k where k: "findIndex (\<lambda>item. item_id item = item_id it) ?xs = Some k"
    and len: "k < length ?xs" and same: "item_id (?xs ! k) = item_id it"
    and before: "\<forall>y\<in>set (take k ?xs). item_id y \<noteq> item_id it"
    by blast
  have split: "?xs = take k ?xs @ (?xs ! k) # drop (Suc k) ?xs"
    using len by (rule id_take_nth_drop)
  have mem: "?xs ! k \<in> set ?xs" using len by simp
  have uniq: "distinct (map item_id ?xs) \<longrightarrow> ?xs ! k = it"
    using distinct_ids_same [OF _ mem it same] by blast
  have run: "handOverItem (item_id it) u rd t s =
      (Some (mkHandedOver (?xs ! k) t u rd),
       s\<lparr>found_items := Some (take k ?xs @ drop (Suc k) ?xs),
         handed_over_items := Some (getHandedOverItems s @ [mkHandedOver (?xs ! k) t u rd])\<rparr>)"
    using handOverItem_Some [OF k] by (simp add: splice1_def)
  show ?thesis
  proof (intro exI conjI)
    show "?xs = take k ?xs @ (?xs ! k) # drop (Suc k) ?xs" by (rule split)
    show "\<forall>x\<in>set (take k ?xs). item_id x \<noteq> item_id it" by (rule before)
    show "item_id (?xs ! k) = item_id it" by (rule same)
    show "distinct (map item_id ?xs) \<longrightarrow> ?xs ! k = it" by (rule uniq)
    show "handOverItem (item_id it) u rd t s =
      (Some (mkHandedOver (?xs ! k) t u rd),
       s\<lparr>found_items := Some (take k ?xs @ drop (Suc k) ?xs),
         handed_over_items := Some (getHandedOverItems s @ [mkHandedOver (?xs ! k) t u rd])\<rparr>)"
      by (rule run)
  qed
qed

lemma handOverStoredItem_present:
  assumes it: "it \<in> set (getFoundItems s)" and st: "status it = stored"
  shows "\<exists>pre first post.
           getFoundItems s = pre @ first # post \<and>
           (\<forall>x\<in>set pre. \<not> (item_id x = item_id it \<and> status x = stored)) \<and>
           item_id first = item_id it \<and> status first = stored \<and>
           (distinct (map item_id (getFoundItems s)) \<longrightarrow> first = it) \<and>
           handOverStoredItem (item_id it) u rd t s =
             (Some (mkHandedOver first t u rd),
              s\<lparr>found_items := Some (pre @ post),
                handed_over_items := Some (getHandedOverItems s @ [mkHandedOver first t u rd])\<rparr>)"
proof -
  let ?xs = "getFoundItems s"
  let ?P = "\<lambda>item. item_id item = item_id it \<and> status item = stored"
  have "?P it" using st by simp
  from findIndex_first [OF it, of ?P, OF this]
  obtain k where k: "findIndex ?P ?xs = Some k"
    and len: "k < length ?xs" and same: "item_id (?xs ! k) = item_id it"
    and stk: "status (?xs ! k) = stored"
    and before: "\<forall>y\<in>set (take k ?xs). \<not> ?P y"
    by blast
  have split: "?xs = take k ?xs @ (?xs ! k) # drop (Suc k) ?xs"
    using len by (rule id_take_nth_drop)
  have mem: "?xs ! k \<in> set ?xs" using len by simp
  have uniq: "distinct (map item_id ?xs) \<longrightarrow> ?xs ! k = it"
    using distinct_ids_same [OF _ mem it same] by blast
  have run: "handOverStoredItem (item_id it) u rd t s =
      (Some (mkHandedOver (?xs ! k) t u rd),
       s\<lparr>found_items := Some (take k ?xs @ drop (Suc k) ?xs),
         handed_over_items := Some (getHandedOverItems s @ [mkHandedOver (?xs ! k) t u rd])\<rparr>)"
    using handOverStoredItem_Some [OF k] by (simp add: splice1_def)
  show ?thesis
  proof (intro exI conjI)
    show "?xs = take k ?xs @ (?xs ! k) # drop (Suc k) ?xs" by (rule split)
    show "\<forall>x\<in>set (take k ?xs). \<not> ?P x" by (rule before)
    show "item_id (?xs ! k) = item_id it" by (rule same)
    show "status (?xs ! k) = stored" by (rule stk)
    show "distinct (map item_id ?xs) \<longrightarrow> ?xs ! k = it" by (rule uniq)
    show "handOverStoredItem (item_id it) u rd t s =
      (Some (mkHandedOver (?xs ! k) t u rd),
       s\<lparr>found_items := Some (take k ?xs @ drop (Suc k) ?xs),
         handed_over_items := Some (getHandedOverItems s @ [mkHandedOver (?xs ! k) t u rd])\<rparr>)"
      by (rule run)
  qed
qed

lemma handOverItem_absent:
  "i \<notin> item_id ` set (getFoundItems s) \<Longrightarrow> handOverItem i u rd t s = (None, s)"
  by (rule handOverItem_None) (auto simp: findIndex_None_iff)

lemma handOverStoredItem_not_stored:
  "\<forall>x\<in>set (getFoundItems s). item_id x = i \<longrightarrow> status x \<noteq> stored \<Longrightarrow>
   handOverStoredItem i u rd t s = (None, s)"
  by (rule handOverStoredItem_None) (auto simp: findIndex_None_iff)

lemma ids_updateItemStatus:
  "activeIds (updateItemStatus i st s) = activeIds s \<and>
   archivedIds (updateItemStatus i st s) = archivedIds s"
proof (cases "findIndex (\<lambda>item. item_id item = i) (getFoundItems s)")
  case None
  then show ?thesis by (simp add: updateItemStatus_def)
next
  case (Some k)
  from findIndex_Some_split [OF Some] have k: "k < length (getFoundItems s)" by simp
  have "map item_id ((getFoundItems s)[k := (getFoundItems s ! k)\<lparr>status := st\<rparr>])
               = map item_id (getFoundItems s)"
    by (rule map_id_status_update [OF k])
  then show ?thesis
    by (simp add: updateItemStatus_Some [OF Some] activeIds_def archivedIds_def flip: set_map)
qed

lemma ids_restoreFromStorage:
  "activeIds (snd (restoreFromStorage i s)) = activeIds s \<and>
   archivedIds (snd (restoreFromStorage i s)) = archivedIds s"
proof (cases "findIndex (\<lambda>item. item_id item = i \<and> status item = stored) (getFoundItems s)")
  case None
  then show ?thesis by (simp add: restoreFromStorage_None)
next
  case (Some k)
  from findIndex_Some_split [OF Some] have k: "k < length (getFoundItems s)" by simp
  have "map item_id ((getFoundItems s)[k := (getFoundItems s ! k)\<lparr>status := active\<rparr>])
               = map item_id (getFoundItems s)"
    by (rule map_id_status_update [OF k])
  then show ?thesis
    by (simp add: restoreFromStorage_Some [OF Some] activeIds_def archivedIds_def flip: set_map)
qed

lemma ids_deleteItem:
  "activeIds (deleteItem i s) = activeIds s - {i} \<and>
   archivedIds (deleteItem i s) = archivedIds s"
  by (auto simp: deleteItem_def activeIds_def archivedIds_def)

lemma ids_saveFoundItem:
  "activeIds (snd (saveFoundItem rt item u nowMs rnd t s))
     = insert (generateItemId rt nowMs rnd) (activeIds s) \<and>
   archivedIds (snd (saveFoundItem rt item u nowMs rnd t s)) = archivedIds s"
  unfolding saveFoundItem_snd
  by (simp add: activeIds_def archivedIds_def)

lemma ids_moved:
  assumes k: "k < length (getFoundItems s)"
    and h: "item_id h = item_id (getFoundItems s ! k)"
  shows "activeIds (s\<lparr>found_items := Some (splice1 k (getFoundItems s)),
                     handed_over_items := Some (getHandedOverItems s @ [h])\<rparr>) =
           item_id ` set (splice1 k (getFoundItems s)) \<and>
         archivedIds (s\<lparr>found_items := Some (splice1 k (getFoundItems s)),
                       handed_over_items := Some (getHandedOverItems s @ [h])\<rparr>) =
           insert (item_id (getFoundItems s ! k)) (archivedIds s) \<and>
         insert (item_id (getFoundItems s ! k)) (item_id ` set (splice1 k (getFoundItems s)))
           = activeIds s"
proof -
  let ?xs = "getFoundItems s"
  have "set ?xs = set (take k ?xs @ (?xs ! k) # drop (Suc k) ?xs)"
    by (rule arg_cong [where f = set, OF id_take_nth_drop [OF k]])
  also have "\<dots> = insert (?xs ! k) (set (splice1 k ?xs))"
    by (auto simp: splice1_def)
  finally have "item_id ` set ?xs = item_id ` insert (?xs ! k) (set (splice1 k ?xs))"
    by (rule arg_cong)
  then have "insert (item_id (?xs ! k)) (item_id ` set (splice1 k ?xs)) = activeIds s"
    by (simp add: activeIds_def)
  then show ?thesis
    using h by (simp add: activeIds_def archivedIds_def)
qed

lemma ids_handOverItem:
  "activeIds (snd (handOverItem i u rd t s)) \<union> archivedIds (snd (handOverItem i u rd t s))
     = activeIds s \<union> archivedIds s"
proof (cases "findIndex (\<lambda>item. item_id item = i) (getFoundItems s)")
  case None
  then show ?thesis by (simp add: handOverItem_None)
next
  case (Some k)
  from findIndex_Some_split [OF Some] have k: "k < length (getFoundItems s)" by simp
  from ids_moved [OF k, of "mkHandedOver (getFoundItems s ! k) t u rd"]
  show ?thesis
    by (simp add: handOverItem_Some [OF Some]) blast
qed

lemma ids_handOverStoredItem:
  "activeIds (snd (handOverStoredItem i u rd t s))
     \<union> archivedIds (snd (handOverStoredItem i u rd t s))
     = activeIds s \<union> archivedIds s"
proof (cases "findIndex (\<lambda>item. item_id item = i \<and> status item = stored) (getFoundItems s)")
  case None
  then show ?thesis by (simp add: handOverStoredItem_None)
next
  case (Some k)
  from findIndex_Some_split [OF Some] have k: "k < length (getFoundItems s)" by simp
  from ids_moved [OF k, of "mkHandedOver (getFoundItems s ! k) t u rd"]
  show ?thesis
    by (simp add: handOverStoredItem_Some [OF Some]) blast
qed

subsection \<open>Handover of an item of any status\<close>

text \<open>
  Claim C9, as stated, fails when two active records share an id: the handover of
  the second one, a sold item, removes and archives the first record, and the item
  itself stays in the active collection.
\<close>

theorem handOverItem_duplicate_counterexample:
  "exItem (js ''6553F10000000000'') (js ''2023-11-15'') sold
     \<in> set (getFoundItems (exStorage
         [exItem (js ''6553F10000000000'') (js ''2023-11-14'') active, exItem (js ''6553F10000000000'') (js ''2023-11-15'') sold] [])) \<and>
   getFoundItems (snd (handOverItem (item_id (exItem (js ''6553F10000000000'') (js ''2023-11-15'') sold))
       (js ''2'') exRecipient (js ''t1'')
       (exStorage [exItem (js ''6553F10000000000'') (js ''2023-11-14'') active, exItem (js ''6553F10000000000'') (js ''2023-11-15'') sold] [])))
     = [exItem (js ''6553F10000000000'') (js ''2023-11-15'') sold] \<and>
   map FoundItem.truncate
     (getHandedOverItems (snd (handOverItem (item_id (exItem (js ''6553F10000000000'') (js ''2023-11-15'') sold))
       (js ''2'') exRecipient (js ''t1'')
       (exStorage [exItem (js ''6553F10000000000'') (js ''2023-11-14'') active, exItem (js ''6553F10000000000'') (js ''2023-11-15'') sold] []))))
     = [exItem (js ''6553F10000000000'') (js ''2023-11-14'') handed_over] \<and>
   exItem (js ''6553F10000000000'') (js ''2023-11-14'') handed_over \<noteq> exItem (js ''6553F10000000000'') (js ''2023-11-15'') handed_over"
  by code_simp

text \<open>
  Claim C9, amended. For every item \<open>it\<close> of the active collection, whatever its
  status, \<^const>\<open>handOverItem\<close> called with its id succeeds: the first record of the
  active collection that carries that id, which is \<open>it\<close> itself when the ids of the
  collection are distinct, is removed from the active collection and appended to the
  archive with status \<open>handed_over\<close>. Only \<^const>\<open>handOverStoredItem\<close> looks at the
  status: for a stored item it does the same with the first record of that id and
  status \<open>stored\<close>, and it returns null, changing nothing, when no record of that id
  is stored. For an id that is absent from the active collection both functions
  return null and change nothing.
\<close>

theorem handOverItem_any_status:
  "(it \<in> set (getFoundItems s) \<longrightarrow>
      (\<exists>pre first post.
         getFoundItems s = pre @ first # post \<and>
         (\<forall>x\<in>set pre. item_id x \<noteq> item_id it) \<and> item_id first = item_id it \<and>
         (distinct (map item_id (getFoundItems s)) \<longrightarrow> first = it) \<and>
         handOverItem (item_id it) u rd t s =
           (Some (mkHandedOver first t u rd),
            s\<lparr>found_items := Some (pre @ post),
              handed_over_items := Some (getHandedOverItems s @ [mkHandedOver first t u rd])\<rparr>) \<and>
         FoundItem.truncate (mkHandedOver first t u rd) = first\<lparr>status := handed_over\<rparr>)) \<and>
   (it \<in> set (getFoundItems s) \<and> status it = stored \<longrightarrow>
      (\<exists>pre first post.
         getFoundItems s = pre @ first # post \<and>
         (\<forall>x\<in>set pre. \<not> (item_id x = item_id it \<and> status x = stored)) \<and>
         item_id first = item_id it \<and> status first = stored \<and>
         (distinct (map item_id (getFoundItems s)) \<longrightarrow> first = it) \<and>
         handOverStoredItem (item_id it) u rd t s =
           (Some (mkHandedOver first t u rd),
            s\<lparr>found_items := Some (pre @ post),
              handed_over_items := Some (getHandedOverItems s @ [mkHandedOver first t u rd])\<rparr>) \<and>
         FoundItem.truncate (mkHandedOver first t u rd) = first\<lparr>status := handed_over\<rparr>)) \<and>
   ((\<forall>x\<in>set (getFoundItems s). item_id x = i \<longrightarrow> status x \<noteq> stored) \<longrightarrow>
      handOverStoredItem i u rd t s = (None, s)) \<and>
   (i \<notin> item_id ` set (getFoundItems s) \<longrightarrow>
      handOverItem i u rd t s = (None, s) \<and> handOverStoredItem i u rd t s = (None, s))"
proof (intro conjI impI)
  assume "it \<in> set (getFoundItems s)"
  from handOverItem_present [OF this, of u rd t]
  show "\<exists>pre first post.
         getFoundItems s = pre @ first # post \<and>
         (\<forall>x\<in>set pre. item_id x \<noteq> item_id it) \<and> item_id first = item_id it \<and>
         (distinct (map item_id (getFoundItems s)) \<longrightarrow> first = it) \<and>
         handOverItem (item_id it) u rd t s =
           (Some (mkHandedOver first t u rd),
            s\<lparr>found_items := Some (pre @ post),
              handed_over_items := Some (getHandedOverItems s @ [mkHandedOver first t u rd])\<rparr>) \<and>
         FoundItem.truncate (mkHandedOver first t u rd) = first\<lparr>status := handed_over\<rparr>"
    by (simp only: mkHandedOver_base simp_thms)
next
  assume "it \<in> set (getFoundItems s) \<and> status it = stored"
  then have a: "it \<in> set (getFoundItems s)" and b: "status it = stored" by simp_all
  from handOverStoredItem_present [OF a b, of u rd t]
  show "\<exists>pre first post.
         getFoundItems s = pre @ first # post \<and>
         (\<forall>x\<in>set pre. \<not> (item_id x = item_id it \<and> status x = stored)) \<and>
         item_id first = item_id it \<and> status first = stored \<and>
         (distinct (map item_id (getFoundItems s)) \<longrightarrow> first = it) \<and>
         handOverStoredItem (item_id it) u rd t s =
           (Some (mkHandedOver first t u rd),
            s\<lparr>found_items := Some (pre @ post),
              handed_over_items := Some (getHandedOverItems s @ [mkHandedOver first t u rd])\<rparr>) \<and>
         FoundItem.truncate (mkHandedOver first t u rd) = first\<lparr>status := handed_over\<rparr>"
    by (simp only: mkHandedOver_base simp_thms)
next
  assume "\<forall>x\<in>set (getFoundItems s). item_id x = i \<longrightarrow> status x \<noteq> stored"
  then show "handOverStoredItem i u rd t s = (None, s)"
    by (rule handOverStoredItem_not_stored)
next
  assume a: "i \<notin> item_id ` set (getFoundItems s)"
  then show "handOverItem i u rd t s = (None, s)"
    by (rule handOverItem_absent)
  from a have "\<forall>x\<in>set (getFoundItems s). item_id x = i \<longrightarrow> status x \<noteq> stored"
    by auto
  then show "handOverStoredItem i u rd t s = (None, s)"
    by (rule handOverStoredItem_not_stored)
qed

theorem handOverItem_any_status_witness:
  "handOverItem (js ''A1'') (js ''2'') exRecipient (js ''t1'')
       (exStorage [exItem (js ''A1'') (js ''2023-11-14'') sold] [])
     = (Some (mkHandedOver (exItem (js ''A1'') (js ''2023-11-14'') sold) (js ''t1'') (js ''2'')
                exRecipient),
        exStorage []
          [mkHandedOver (exItem (js ''A1'') (js ''2023-11-14'') sold) (js ''t1'') (js ''2'')
             exRecipient]) \<and>
   handOverStoredItem (js ''A1'') (js ''2'') exRecipient (js ''t1'')
       (exStorage [exItem (js ''A1'') (js ''2023-11-14'') sold] [])
     = (None, exStorage [exItem (js ''A1'') (js ''2023-11-14'') sold] []) \<and>
   handOverItem (js ''B2'') (js ''2'') exRecipient (js ''t1'')
       (exStorage [exItem (js ''A1'') (js ''2023-11-14'') sold] [])
     = (None, exStorage [exItem (js ''A1'') (js ''2023-11-14'') sold] []) \<and>
   handOverStoredItem (js ''A1'') (js ''2'') exRecipient (js ''t1'')
       (exStorage [exItem (js ''A1'') (js ''2023-11-14'') stored] [])
     = (Some (mkHandedOver (exItem (js ''A1'') (js ''2023-11-14'') stored) (js ''t1'') (js ''2'')
                exRecipient),
        exStorage []
          [mkHandedOver (exItem (js ''A1'') (js ''2023-11-14'') stored) (js ''t1'') (js ''2'')
             exRecipient])"
proof -
  let ?it = "exItem (js ''A1'') (js ''2023-11-14'') sold"
  let ?st = "exItem (js ''A1'') (js ''2023-11-14'') stored"
  let ?s = "exStorage [?it] []"
  let ?s2 = "exStorage [?st] []"
  have items: "getFoundItems ?s = [?it]" and items2: "getFoundItems ?s2 = [?st]"
    by (simp_all add: exStorage_def getFoundItems_def)
  have arch: "getHandedOverItems ?s = []" and arch2: "getHandedOverItems ?s2 = []"
    by (simp_all add: exStorage_def getHandedOverItems_def)
  have id: "item_id ?it = js ''A1''" and st: "status ?it = sold"
    and id2: "item_id ?st = js ''A1''" and st2: "status ?st = stored"
    by (simp_all add: exItem_def)
  have neq: "js ''B2'' \<noteq> js ''A1''" by code_simp
  have upd: "xs\<lparr>found_items := Some [], handed_over_items := Some hs\<rparr> = exStorage [] hs"
    if "xs = exStorage ys []" for xs ys hs
    using that by (simp add: exStorage_def)
  have h1: "?it \<in> set (getFoundItems ?s)" using items by simp
  have h3: "js ''B2'' \<notin> item_id ` set (getFoundItems ?s)" using items id neq by simp
  have h4: "\<forall>x\<in>set (getFoundItems ?s). item_id x = js ''A1'' \<longrightarrow> status x \<noteq> stored"
    using items st by simp
  from handOverItem_any_status [of ?it ?s "js ''2''" exRecipient "js ''t1''" "js ''A1''"] h1 h4
  obtain pre first post where sp: "getFoundItems ?s = pre @ first # post"
    and run: "handOverItem (item_id ?it) (js ''2'') exRecipient (js ''t1'') ?s =
           (Some (mkHandedOver first (js ''t1'') (js ''2'') exRecipient),
            ?s\<lparr>found_items := Some (pre @ post),
              handed_over_items :=
                Some (getHandedOverItems ?s @ [mkHandedOver first (js ''t1'') (js ''2'') exRecipient])\<rparr>)"
    and b: "handOverStoredItem (js ''A1'') (js ''2'') exRecipient (js ''t1'') ?s = (None, ?s)"
    by blast
  from sp items have "pre = [] \<and> first = ?it \<and> post = []"
    by (cases pre) simp_all
  with run have a: "handOverItem (js ''A1'') (js ''2'') exRecipient (js ''t1'') ?s
     = (Some (mkHandedOver ?it (js ''t1'') (js ''2'') exRecipient),
        exStorage [] [mkHandedOver ?it (js ''t1'') (js ''2'') exRecipient])"
    by (simp add: id arch upd [of ?s "[?it]"])
  from handOverItem_any_status [of ?it ?s "js ''2''" exRecipient "js ''t1''" "js ''B2''"] h3
  have c: "handOverItem (js ''B2'') (js ''2'') exRecipient (js ''t1'') ?s = (None, ?s)"
    by blast
  have g1: "?st \<in> set (getFoundItems ?s2)" using items2 by simp
  from handOverItem_any_status [of ?st ?s2 "js ''2''" exRecipient "js ''t1''" "js ''A1''"] g1 st2
  obtain pre2 first2 post2 where sp2: "getFoundItems ?s2 = pre2 @ first2 # post2"
    and run2: "handOverStoredItem (item_id ?st) (js ''2'') exRecipient (js ''t1'') ?s2 =
           (Some (mkHandedOver first2 (js ''t1'') (js ''2'') exRecipient),
            ?s2\<lparr>found_items := Some (pre2 @ post2),
              handed_over_items :=
                Some (getHandedOverItems ?s2
                      @ [mkHandedOver first2 (js ''t1'') (js ''2'') exRecipient])\<rparr>)"
    by blast
  from sp2 items2 have "pre2 = [] \<and> first2 = ?st \<and> post2 = []"
    by (cases pre2) simp_all
  with run2 have d: "handOverStoredItem (js ''A1'') (js ''2'') exRecipient (js ''t1'') ?s2
     = (Some (mkHandedOver ?st (js ''t1'') (js ''2'') exRecipient),
        exStorage [] [mkHandedOver ?st (js ''t1'') (js ''2'') exRecipient])"
    by (simp add: id2 arch2 upd [of ?s2 "[?st]"])
  from a b c d show ?thesis by (intro conjI)
qed

subsection \<open>Restoring an item from storage\<close>

text \<open>
  Claim C10. \<^const>\<open>restoreFromStorage\<close> returns true exactly when the active
  collection holds an item with the given id whose status is \<open>stored\<close>. When it
  returns true, the storage differs from the one before only in that one such item
  (the first in the collection) has its status set to \<open>active\<close>; when it returns
  false the storage is unchanged.
\<close>

theorem restoreFromStorage_frame:
  "(fst (restoreFromStorage i s) \<longleftrightarrow>
      (\<exists>x\<in>set (getFoundItems s). item_id x = i \<and> status x = stored)) \<and>
   (fst (restoreFromStorage i s) \<longrightarrow>
      (\<exists>k<length (getFoundItems s).
         item_id (getFoundItems s ! k) = i \<and> status (getFoundItems s ! k) = stored \<and>
         (\<forall>j<k. \<not> (item_id (getFoundItems s ! j) = i \<and> status (getFoundItems s ! j) = stored)) \<and>
         snd (restoreFromStorage i s) =
           s\<lparr>found_items :=
               Some ((getFoundItems s)[k := (getFoundItems s ! k)\<lparr>status := active\<rparr>])\<rparr>)) \<and>
   (\<not> fst (restoreFromStorage i s) \<longrightarrow> snd (restoreFromStorage i s) = s)"
proof (cases "findIndex (\<lambda>item. item_id item = i \<and> status item = stored) (getFoundItems s)")
  case None
  then have "\<not> (\<exists>x\<in>set (getFoundItems s). item_id x = i \<and> status x = stored)"
    by (simp add: findIndex_None_iff)
  then show ?thesis
    by (simp add: restoreFromStorage_None [OF None])
next
  case (Some k)
  let ?xs = "getFoundItems s"
  from findIndex_Some_split [OF Some]
  have len: "k < length ?xs" and hit: "item_id (?xs ! k) = i \<and> status (?xs ! k) = stored"
    and before: "\<forall>x\<in>set (take k ?xs). \<not> (item_id x = i \<and> status x = stored)"
    by simp_all
  have first: "\<forall>j<k. \<not> (item_id (?xs ! j) = i \<and> status (?xs ! j) = stored)"
  proof (intro allI impI)
    fix j assume "j < k"
    with len have "?xs ! j \<in> set (take k ?xs)"
      by (auto simp: in_set_conv_nth intro!: exI [of _ j])
    with before show "\<not> (item_id (?xs ! j) = i \<and> status (?xs ! j) = stored)"
      by blast
  qed
  have ex: "\<exists>x\<in>set ?xs. item_id x = i \<and> status x = stored"
    using len hit nth_mem by blast
  have "\<exists>k'<length ?xs.
         item_id (?xs ! k') = i \<and> status (?xs ! k') = stored \<and>
         (\<forall>j<k'. \<not> (item_id (?xs ! j) = i \<and> status (?xs ! j) = stored)) \<and>
         s\<lparr>found_items := Some (?xs[k := (?xs ! k)\<lparr>status := active\<rparr>])\<rparr> =
           s\<lparr>found_items := Some (?xs[k' := (?xs ! k')\<lparr>status := active\<rparr>])\<rparr>"
    using len hit first by blast
  with ex show ?thesis
    by (simp add: restoreFromStorage_Some [OF Some])
qed

theorem restoreFromStorage_frame_witness:
  "fst (restoreFromStorage (js ''A1'') (exStorage [exItem (js ''A1'') (js ''2023-11-14'') stored] [])) \<and>
   snd (restoreFromStorage (js ''A1'') (exStorage [exItem (js ''A1'') (js ''2023-11-14'') stored] []))
     = exStorage [exItem (js ''A1'') (js ''2023-11-14'') active] [] \<and>
   \<not> fst (restoreFromStorage (js ''B2'') (exStorage [exItem (js ''A1'') (js ''2023-11-14'') stored] [])) \<and>
   snd (restoreFromStorage (js ''B2'') (exStorage [exItem (js ''A1'') (js ''2023-11-14'') stored] []))
     = exStorage [exItem (js ''A1'') (js ''2023-11-14'') stored] []"
proof -
  let ?it = "exItem (js ''A1'') (js ''2023-11-14'') stored"
  let ?s = "exStorage [?it] []"
  have items: "getFoundItems ?s = [?it]"
    by (simp add: exStorage_def getFoundItems_def)
  have id: "item_id ?it = (js ''A1'')" and st: "status ?it = stored"
    by (simp_all add: exItem_def)
  have yes: "\<exists>x\<in>set (getFoundItems ?s). item_id x = (js ''A1'') \<and> status x = stored"
    using items id st by simp
  have neq: "js ''A1'' \<noteq> js ''B2''" by code_simp
  have no: "\<not> (\<exists>x\<in>set (getFoundItems ?s). item_id x = (js ''B2'') \<and> status x = stored)"
    using items id neq by simp
  from restoreFromStorage_frame [of "(js ''A1'')" ?s] yes
  have a: "fst (restoreFromStorage (js ''A1'') ?s)"
    and "\<exists>k<length (getFoundItems ?s).
           snd (restoreFromStorage (js ''A1'') ?s) =
             ?s\<lparr>found_items :=
                 Some ((getFoundItems ?s)[k := (getFoundItems ?s ! k)\<lparr>status := active\<rparr>])\<rparr>"
    by blast+
  then have b: "snd (restoreFromStorage (js ''A1'') ?s) = exStorage [exItem (js ''A1'') (js ''2023-11-14'') active] []"
    by (auto simp: items) (simp add: exStorage_def exItem_def)
  from restoreFromStorage_frame [of "(js ''B2'')" ?s] no
  have c: "\<not> fst (restoreFromStorage (js ''B2'') ?s)"
    and d: "snd (restoreFromStorage (js ''B2'') ?s) = ?s"
    by blast+
  from a b c d show ?thesis by blast
qed

subsection \<open>Exclusivity of the active collection and the archive\<close>

text \<open>
  Claim C2, as stated, fails in three ways. \<^const>\<open>saveFoundItem\<close> takes the id that
  \<^const>\<open>generateItemId\<close> computes from the clock and the random digits and does not
  compare it with the ids in the storage, so an id of the archive can come back into
  the active collection. \<^const>\<open>handOverItem\<close> removes one record only, so an id that
  two active records share ends up in both collections. And \<^const>\<open>deleteItem\<close>
  removes the record without archiving it, so its id ends up in neither collection.
\<close>

theorem exclusivity_counterexample:
  "exclusive (exStorage []
      [mkHandedOver (exItem (js ''6553F10000000000'') (js ''2023-11-14'') active) (js ''t1'') (js ''2'') exRecipient]) \<and>
   \<not> exclusive (snd (saveFoundItem exRuntime exInput (js ''2'') 1700000000000 exRnd (js ''t2'')
      (exStorage []
        [mkHandedOver (exItem (js ''6553F10000000000'') (js ''2023-11-14'') active) (js ''t1'') (js ''2'') exRecipient]))) \<and>
   exclusive (exStorage
      [exItem (js ''6553F10000000000'') (js ''2023-11-14'') active, exItem (js ''6553F10000000000'') (js ''2023-11-14'') stored] []) \<and>
   \<not> exclusive (snd (handOverItem (js ''6553F10000000000'') (js ''2'') exRecipient (js ''t1'') (exStorage
      [exItem (js ''6553F10000000000'') (js ''2023-11-14'') active, exItem (js ''6553F10000000000'') (js ''2023-11-14'') stored] []))) \<and>
   exclusive (exStorage [exItem (js ''6553F10000000000'') (js ''2023-11-14'') active] []) \<and>
   (js ''6553F10000000000'') \<in> activeIds (exStorage [exItem (js ''6553F10000000000'') (js ''2023-11-14'') active] []) \<and>
   (js ''6553F10000000000'') \<notin> activeIds (deleteItem (js ''6553F10000000000'') (exStorage [exItem (js ''6553F10000000000'') (js ''2023-11-14'') active] [])) \<and>
   (js ''6553F10000000000'') \<notin> archivedIds (deleteItem (js ''6553F10000000000'') (exStorage [exItem (js ''6553F10000000000'') (js ''2023-11-14'') active] []))"
  by code_simp

text \<open>
  Claim C2, amended. Start from a storage in which every id occurs in exactly one of
  the two collections and the ids of the active collection are pairwise distinct.
  Then \<^const>\<open>updateItemStatus\<close> and \<^const>\<open>restoreFromStorage\<close> lead to such a storage
  with the same ids in each collection; \<^const>\<open>handOverItem\<close> and
  \<^const>\<open>handOverStoredItem\<close> lead to such a storage that holds the same ids, so every
  id is still in exactly one collection, never in both and never in neither;
  \<^const>\<open>saveFoundItem\<close> leads to such a storage, with the generated id added to the
  active collection, provided that id was in neither collection; and
  \<^const>\<open>deleteItem\<close> leads to such a storage in which every other id is where it
  was, while the deleted id is in neither collection.
\<close>

theorem store_ops_preserve_exclusivity:
  assumes "storeInv s"
  shows "(storeInv (updateItemStatus i st s) \<and>
          activeIds (updateItemStatus i st s) = activeIds s \<and>
          archivedIds (updateItemStatus i st s) = archivedIds s) \<and>
         (storeInv (snd (restoreFromStorage i s)) \<and>
          activeIds (snd (restoreFromStorage i s)) = activeIds s \<and>
          archivedIds (snd (restoreFromStorage i s)) = archivedIds s) \<and>
         (storeInv (snd (handOverItem i u rd t s)) \<and>
          activeIds (snd (handOverItem i u rd t s)) \<union> archivedIds (snd (handOverItem i u rd t s))
            = activeIds s \<union> archivedIds s) \<and>
         (storeInv (snd (handOverStoredItem i u rd t s)) \<and>
          activeIds (snd (handOverStoredItem i u rd t s))
              \<union> archivedIds (snd (handOverStoredItem i u rd t s))
            = activeIds s \<union> archivedIds s) \<and>
         (generateItemId rt nowMs rnd \<notin> activeIds s \<union> archivedIds s \<longrightarrow>
            storeInv (snd (saveFoundItem rt item u nowMs rnd t s)) \<and>
            activeIds (snd (saveFoundItem rt item u nowMs rnd t s))
              = insert (generateItemId rt nowMs rnd) (activeIds s) \<and>
            archivedIds (snd (saveFoundItem rt item u nowMs rnd t s)) = archivedIds s) \<and>
         (storeInv (deleteItem i s) \<and>
          activeIds (deleteItem i s) = activeIds s - {i} \<and>
          archivedIds (deleteItem i s) = archivedIds s \<and>
          (i \<in> activeIds s \<longrightarrow> i \<notin> activeIds (deleteItem i s) \<union> archivedIds (deleteItem i s)))"
proof -
  have del: "i \<in> activeIds s \<longrightarrow> i \<notin> activeIds (deleteItem i s) \<union> archivedIds (deleteItem i s)"
    using assms ids_deleteItem [of i s] by (auto simp: storeInv_def exclusive_disjoint)
  have save: "generateItemId rt nowMs rnd \<notin> activeIds s \<union> archivedIds s \<longrightarrow>
            storeInv (snd (saveFoundItem rt item u nowMs rnd t s))"
    using assms storeInv_saveFoundItem [of s rt nowMs rnd item u t] by blast
  from storeInv_updateItemStatus [OF assms, of i st] ids_updateItemStatus [of i st s]
    storeInv_restoreFromStorage [OF assms, of i] ids_restoreFromStorage [of i s]
    storeInv_handOverItem [OF assms, of i u rd t] ids_handOverItem [of i u rd t s]
    storeInv_handOverStoredItem [OF assms, of i u rd t] ids_handOverStoredItem [of i u rd t s]
    save ids_saveFoundItem [of rt item u nowMs rnd t s]
    storeInv_deleteItem [OF assms, of i] ids_deleteItem [of i s] del
  show ?thesis by blast
qed

theorem store_ops_preserve_exclusivity_witness:
  "storeInv (exStorage [exItem (js ''A1'') (js ''2023-11-14'') stored] []) \<and>
   generateItemId exRuntime 1700000000000 exRnd
     \<notin> activeIds (exStorage [exItem (js ''A1'') (js ''2023-11-14'') stored] [])
       \<union> archivedIds (exStorage [exItem (js ''A1'') (js ''2023-11-14'') stored] []) \<and>
   storeInv (snd (handOverStoredItem (js ''A1'') (js ''2'') exRecipient (js ''t1'')
     (exStorage [exItem (js ''A1'') (js ''2023-11-14'') stored] []))) \<and>
   activeIds (snd (handOverStoredItem (js ''A1'') (js ''2'') exRecipient (js ''t1'')
       (exStorage [exItem (js ''A1'') (js ''2023-11-14'') stored] [])))
     \<union> archivedIds (snd (handOverStoredItem (js ''A1'') (js ''2'') exRecipient (js ''t1'')
       (exStorage [exItem (js ''A1'') (js ''2023-11-14'') stored] [])))
     = activeIds (exStorage [exItem (js ''A1'') (js ''2023-11-14'') stored] [])
       \<union> archivedIds (exStorage [exItem (js ''A1'') (js ''2023-11-14'') stored] []) \<and>
   storeInv (snd (saveFoundItem exRuntime exInput (js ''2'') 1700000000000 exRnd (js ''t1'')
     (exStorage [exItem (js ''A1'') (js ''2023-11-14'') stored] [])))"
proof -
  let ?s = "exStorage [exItem (js ''A1'') (js ''2023-11-14'') stored] []"
  have h: "storeInv ?s" by code_simp
  have fresh: "generateItemId exRuntime 1700000000000 exRnd \<notin> activeIds ?s \<union> archivedIds ?s"
    by code_simp
  from store_ops_preserve_exclusivity [OF h, of "js ''A1''" active "js ''2''" exRecipient "js ''t1''"
      exRuntime 1700000000000 exRnd exInput] h fresh
  show ?thesis by blast
qed

subsection \<open>Elapsed days\<close>

lemma bitLength_bounds:
  "0 < n \<Longrightarrow> 2 ^ (bitLength n - 1) \<le> n \<and> n < 2 ^ bitLength n"
proof (induction n rule: bitLength.induct)
  case (1 n)
  have bl: "bitLength n = Suc (bitLength (n div 2))"
    using "1.prems" by (subst bitLength.simps) simp
  show ?case
  proof (cases "n div 2 = 0")
    case True
    with "1.prems" have "n = 1" by presburger
    then show ?thesis by (simp add: bitLength.simps [of 1] bitLength.simps [of 0])
  next
    case False
    with "1.prems" have pos: "0 < n div 2" by presburger
    from "1.IH" [OF _ pos] "1.prems"
    have lo: "2 ^ (bitLength (n div 2) - 1) \<le> n div 2" and hi: "n div 2 < 2 ^ bitLength (n div 2)"
      by simp_all
    have b1: "1 \<le> bitLength (n div 2)"
      using pos by (subst bitLength.simps) simp
    then obtain b where b: "bitLength (n div 2) = Suc b"
      by (cases "bitLength (n div 2)") simp_all
    from lo b have "2 * 2 ^ b \<le> 2 * (n div 2)" by simp
    then have lo': "(2::int) ^ Suc b \<le> n" by (simp; presburger)
    from hi b have "n div 2 < 2 ^ Suc b" by simp
    then have hi': "n < 2 ^ Suc (Suc b)" by (simp; presburger)
    from lo' hi' show ?thesis by (simp add: bl b)
  qed
qed

lemma bitLength_2_53: "bitLength (2 ^ 53) = 54"
  by code_simp

lemma toDouble_small: "\<bar>x\<bar> \<le> 2 ^ 53 \<Longrightarrow> toDouble x = x"
proof (cases "\<bar>x\<bar> < 2 ^ 53")
  case True
  then show ?thesis by (simp add: toDouble_def)
next
  case False
  assume "\<bar>x\<bar> \<le> 2 ^ 53"
  with False have "x = 2 ^ 53 \<or> x = - (2 ^ 53)" by linarith
  moreover have "toDouble (2 ^ 53) = 2 ^ 53" by code_simp
  moreover have "toDouble (- (2 ^ 53)) = - (2 ^ 53)" by code_simp
  ultimately show ?thesis by metis
qed

lemma toDouble_large:
  assumes "2 ^ 53 \<le> \<bar>x\<bar>"
  shows "2 ^ 53 \<le> \<bar>toDouble x\<bar>"
proof (cases "\<bar>x\<bar> = 2 ^ 53")
  case True
  then show ?thesis by (simp add: toDouble_small)
next
  case False
  let ?a = "\<bar>x\<bar>"
  let ?k = "bitLength ?a - 53"
  let ?m = "(2::int) ^ ?k"
  have big: "\<not> ?a < 2 ^ 53" using assms by linarith
  have p53: "(0::int) < 2 ^ 53" by simp
  have apos: "0 < ?a" using assms p53 by linarith
  from bitLength_bounds [OF apos]
  have lo: "2 ^ (bitLength ?a - 1) \<le> ?a" and hi: "?a < 2 ^ bitLength ?a" by simp_all
  have lt: "(2::int) ^ 53 < 2 ^ bitLength ?a" using assms hi by linarith
  have one: "(1::int) < 2" by simp
  from power_less_imp_less_exp [OF one lt] have bl: "53 < bitLength ?a" .
  then have e: "bitLength ?a - 1 = 52 + ?k" by simp
  have mpos: "0 < ?m" by simp
  have pe: "(2::int) ^ (bitLength ?a - 1) = 2 ^ 52 * ?m"
    unfolding e by (rule power_add)
  have le: "2 ^ 52 * ?m \<le> ?a" using lo unfolding pe .
  have "2 ^ 52 * ?m div ?m \<le> ?a div ?m" using le mpos by (rule zdiv_mono1)
  then have q: "2 ^ 52 \<le> ?a div ?m" by simp
  have k1: "1 \<le> ?k" using bl by simp
  have "(2::int) ^ 1 \<le> 2 ^ ?k" using k1 by (intro power_increasing) simp_all
  then have m2: "2 \<le> ?m" by simp
  have "(2::int) ^ 52 * 2 \<le> (?a div ?m) * ?m"
    using q m2 by (intro mult_mono) simp_all
  then have qm: "2 ^ 53 \<le> (?a div ?m) * ?m" by simp
  have qm1: "(?a div ?m) * ?m \<le> (?a div ?m + 1) * ?m"
    using mpos by (simp add: distrib_right)
  define y where "y = (if 2 * (?a mod ?m) < ?m \<or> (2 * (?a mod ?m) = ?m \<and> even (?a div ?m))
                       then (?a div ?m) * ?m else (?a div ?m + 1) * ?m)"
  have y: "2 ^ 53 \<le> y"
  proof (cases "2 * (?a mod ?m) < ?m \<or> (2 * (?a mod ?m) = ?m \<and> even (?a div ?m))")
    case True
    then have "y = (?a div ?m) * ?m" by (simp only: y_def if_True)
    with qm show ?thesis by simp
  next
    case False
    then have "y = (?a div ?m + 1) * ?m" by (simp only: y_def if_False)
    with qm qm1 show ?thesis by linarith
  qed
  have td: "toDouble x = sgn x * y"
    using big by (simp only: toDouble_def Let_def y_def if_False)
  have nz: "\<bar>sgn x\<bar> = 1" using apos by (simp add: abs_sgn_eq)
  have ypos: "\<bar>y\<bar> = y" using y p53 by linarith
  have "\<bar>toDouble x\<bar> = \<bar>sgn x\<bar> * \<bar>y\<bar>" by (simp only: td abs_mult)
  then show ?thesis using nz ypos y by simp
qed

lemma toDouble_V21: "toDouble (4320000000000001 - (- 8640000000000000)) = 12960000000000000"
  by code_simp

lemma ceil_div_days: "- ((- a) div msPerDay) = \<lceil>real_of_int a / real_of_int msPerDay\<rceil>"
  by (simp add: ceiling_divide_eq_div)

lemma days_ge_iff:
  assumes "0 \<le> a"
  shows "n \<le> - ((- a) div msPerDay) \<longleftrightarrow> (n - 1) * msPerDay < a"
proof -
  have pos: "0 < real_of_int msPerDay" by (simp add: msPerDay_def)
  have "n \<le> - ((- a) div msPerDay) \<longleftrightarrow> n \<le> \<lceil>real_of_int a / real_of_int msPerDay\<rceil>"
    by (simp only: ceil_div_days)
  also have "\<dots> \<longleftrightarrow> real_of_int n - 1 < real_of_int a / real_of_int msPerDay"
    by (rule le_ceiling_iff)
  also have "\<dots> \<longleftrightarrow> (real_of_int n - 1) * real_of_int msPerDay < real_of_int a"
    using pos by (simp add: pos_less_divide_eq)
  also have "\<dots> \<longleftrightarrow> real_of_int ((n - 1) * msPerDay) < real_of_int a"
    by simp
  also have "\<dots> \<longleftrightarrow> (n - 1) * msPerDay < a"
    by (rule of_int_less_iff)
  finally show ?thesis .
qed

lemma toDouble_nonzero: "x \<noteq> 0 \<Longrightarrow> toDouble x \<noteq> 0"
proof (cases "\<bar>x\<bar> \<le> 2 ^ 53")
  case True
  assume "x \<noteq> 0"
  with True show ?thesis by (simp add: toDouble_small)
next
  case False
  then have "2 ^ 53 \<le> \<bar>x\<bar>" by linarith
  from toDouble_large [OF this] show ?thesis by auto
qed

lemma threshold_toDouble:
  assumes "c < 2 ^ 53"
  shows "c < \<bar>toDouble d\<bar> \<longleftrightarrow> c < \<bar>d\<bar>"
proof (cases "\<bar>d\<bar> \<le> 2 ^ 53")
  case True
  then show ?thesis by (simp add: toDouble_small)
next
  case False
  then have big: "2 ^ 53 \<le> \<bar>d\<bar>" by linarith
  from toDouble_large [OF big] big assms show ?thesis by linarith
qed

lemma canStore_threshold:
  assumes "getTime (foundDate item) = Some found"
  shows "canStore getTime nowMs item \<longleftrightarrow>
           status item = active \<and> 99 * msPerDay < \<bar>nowMs - found\<bar>"
proof -
  have c: "99 * msPerDay < 2 ^ 53" by (simp add: msPerDay_def)
  show ?thesis
    using days_ge_iff [of "\<bar>toDouble (nowMs - found)\<bar>" 100]
      threshold_toDouble [OF c, of "nowMs - found"] assms
    by (auto simp: canStore_def getDaysSinceFound_def Let_def)
qed

lemma canSell_threshold:
  assumes "getTime (foundDate item) = Some found"
  shows "canSell getTime nowMs item \<longleftrightarrow>
           (status item = active \<or> status item = stored) \<and> 365 * msPerDay < \<bar>nowMs - found\<bar>"
proof -
  have c: "365 * msPerDay < 2 ^ 53" by (simp add: msPerDay_def)
  show ?thesis
    using days_ge_iff [of "\<bar>toDouble (nowMs - found)\<bar>" 366]
      threshold_toDouble [OF c, of "nowMs - found"] assms
    by (auto simp: canSell_def getDaysSinceFound_def Let_def)
qed

text \<open>
  Claim C4, as stated, fails. For a found date one day in the future the elapsed days
  are \<open>1\<close>, not the ceiling \<open>-1\<close> of the signed difference, and not a value that is
  negative or zero. And for the earliest found date that a date can hold and a clock
  so late that the difference exceeds \<open>2 ^ 53\<close> milliseconds, the subtraction is
  rounded before the ceiling is taken: the result is 150000000 days, one less than
  the ceiling of the difference.
\<close>

theorem elapsed_days_signed_counterexample:
  "exGetTime (js ''2030-01-01'') = Some 1893456000000 \<and>
   getDaysSinceFound exGetTime 1893369600000 (js ''2030-01-01'') = Some 1 \<and>
   \<lceil>real_of_int (1893369600000 - 1893456000000) / real_of_int msPerDay\<rceil> = - 1 \<and>
   exGetTime (js ''-271821-04-20T00:00:00.000Z'') = Some (- 8640000000000000) \<and>
   getDaysSinceFound exGetTime 4320000000000001 (js ''-271821-04-20T00:00:00.000Z'')
     = Some 150000000 \<and>
   \<lceil>real_of_int (4320000000000001 - (- 8640000000000000)) / real_of_int msPerDay\<rceil>
     = 150000001"
proof -
  have a: "exGetTime (js ''2030-01-01'') = Some 1893456000000" by code_simp
  have b: "getDaysSinceFound exGetTime 1893369600000 (js ''2030-01-01'') = Some 1"
    by code_simp
  have "\<lceil>real_of_int (1893369600000 - 1893456000000) / real_of_int msPerDay\<rceil>
          = - ((- (1893369600000 - 1893456000000)) div msPerDay)"
    by (simp only: ceil_div_days)
  also have "\<dots> = - 1" by (simp add: msPerDay_def)
  finally have c: "\<lceil>real_of_int (1893369600000 - 1893456000000) / real_of_int msPerDay\<rceil> = - 1" .
  have d: "exGetTime (js ''-271821-04-20T00:00:00.000Z'') = Some (- 8640000000000000)"
    by code_simp
  have e: "getDaysSinceFound exGetTime 4320000000000001 (js ''-271821-04-20T00:00:00.000Z'')
     = Some 150000000"
    by code_simp
  have "\<lceil>real_of_int (4320000000000001 - (- 8640000000000000)) / real_of_int msPerDay\<rceil>
          = - ((- (4320000000000001 - (- 8640000000000000))) div msPerDay)"
    by (simp only: ceil_div_days)
  also have "\<dots> = 150000001" by (simp add: msPerDay_def)
  finally have f: "\<lceil>real_of_int (4320000000000001 - (- 8640000000000000)) / real_of_int msPerDay\<rceil>
     = 150000001" .
  from a b c d e f show ?thesis by (intro conjI)
qed

text \<open>
  Claim C4, amended. For every found date that the runtime can parse and every query
  time, the elapsed days are the ceiling, in whole days, of the absolute value of the
  difference between now and the found date as the subtraction of the source yields
  it: the difference itself whenever it is at most \<open>2 ^ 53\<close> milliseconds in absolute
  value, its nearest double otherwise. The value is never negative and is positive
  whenever the found date differs from now, in the future as well as in the past. It
  is a function of the found date and the clock alone; the item record has no field
  for it. For a found date that cannot be parsed the result is \<^verbatim>\<open>NaN\<close>.
\<close>

theorem elapsed_days_abs_ceiling:
  "(getTime fd = Some found \<longrightarrow>
      getDaysSinceFound getTime nowMs fd =
        Some \<lceil>real_of_int \<bar>toDouble (nowMs - found)\<bar> / real_of_int msPerDay\<rceil> \<and>
      (\<bar>nowMs - found\<bar> \<le> 2 ^ 53 \<longrightarrow>
         getDaysSinceFound getTime nowMs fd =
           Some \<lceil>real_of_int \<bar>nowMs - found\<bar> / real_of_int msPerDay\<rceil>) \<and>
      (\<exists>days. getDaysSinceFound getTime nowMs fd = Some days \<and> 0 \<le> days \<and>
         (nowMs \<noteq> found \<longrightarrow> 0 < days))) \<and>
   (getTime fd = None \<longrightarrow> getDaysSinceFound getTime nowMs fd = None)"
proof (intro conjI impI)
  assume f: "getTime fd = Some found"
  show g: "getDaysSinceFound getTime nowMs fd =
        Some \<lceil>real_of_int \<bar>toDouble (nowMs - found)\<bar> / real_of_int msPerDay\<rceil>"
    using f by (simp add: getDaysSinceFound_def Let_def ceil_div_days)
  { assume "\<bar>nowMs - found\<bar> \<le> 2 ^ 53"
    then have "toDouble (nowMs - found) = nowMs - found" by (rule toDouble_small)
    with g show "getDaysSinceFound getTime nowMs fd =
           Some \<lceil>real_of_int \<bar>nowMs - found\<bar> / real_of_int msPerDay\<rceil>"
      by simp }
  let ?a = "\<bar>toDouble (nowMs - found)\<bar>"
  have run: "getDaysSinceFound getTime nowMs fd = Some (- ((- ?a) div msPerDay))"
    using f by (simp add: getDaysSinceFound_def Let_def)
  have nonneg: "0 \<le> - ((- ?a) div msPerDay)"
    using days_ge_iff [of ?a 0] by (simp add: msPerDay_def)
  have pos: "nowMs \<noteq> found \<longrightarrow> 0 < - ((- ?a) div msPerDay)"
  proof
    assume "nowMs \<noteq> found"
    then have "toDouble (nowMs - found) \<noteq> 0" by (intro toDouble_nonzero) simp
    then have "0 < ?a" by simp
    then have "1 \<le> - ((- ?a) div msPerDay)"
      using days_ge_iff [of ?a 1] by simp
    then show "0 < - ((- ?a) div msPerDay)" by linarith
  qed
  from run nonneg pos
  show "\<exists>days. getDaysSinceFound getTime nowMs fd = Some days \<and> 0 \<le> days \<and>
         (nowMs \<noteq> found \<longrightarrow> 0 < days)"
    by blast
next
  assume "getTime fd = None"
  then show "getDaysSinceFound getTime nowMs fd = None"
    by (simp add: getDaysSinceFound_def)
qed

theorem elapsed_days_abs_ceiling_witness:
  "exGetTime (js ''2030-01-01'') = Some 1893456000000 \<and>
   \<bar>1893369600001 - 1893456000000\<bar> \<le> (2::int) ^ 53 \<and>
   exGetTime (js ''soon'') = None \<and>
   getDaysSinceFound exGetTime 1893369600001 (js ''2030-01-01'')
     = Some \<lceil>real_of_int \<bar>1893369600001 - 1893456000000\<bar> / real_of_int msPerDay\<rceil> \<and>
   getDaysSinceFound exGetTime 1893369600001 (js ''soon'') = None"
proof -
  have h: "exGetTime (js ''2030-01-01'') = Some 1893456000000" by code_simp
  have n: "exGetTime (js ''soon'') = None" by code_simp
  have b: "\<bar>1893369600001 - 1893456000000\<bar> \<le> (2::int) ^ 53" by simp
  from elapsed_days_abs_ceiling [of exGetTime "js ''2030-01-01''" 1893456000000 1893369600001] h b
  have r: "getDaysSinceFound exGetTime 1893369600001 (js ''2030-01-01'')
     = Some \<lceil>real_of_int \<bar>1893369600001 - 1893456000000\<bar> / real_of_int msPerDay\<rceil>"
    by blast
  from elapsed_days_abs_ceiling [of exGetTime "js ''soon''" 0 1893369600001] n
  have m: "getDaysSinceFound exGetTime 1893369600001 (js ''soon'') = None"
    by blast
  from h b n r m show ?thesis by (intro conjI)
qed

subsection \<open>The age gates\<close>

text \<open>
  Claim C3, as stated, fails: with the found date 2030-01-01 still in the future, an
  active item can be stored 200 days before that date and no longer 50 days before
  it, and it can be sold 400 days before that date and no longer 50 days before it.
\<close>

theorem age_gate_counterexample:
  "(1876176000000 :: int) < 1889136000000 \<and>
   canStore exGetTime 1876176000000 (exItem (js ''A1'') (js ''2030-01-01'') active) \<and>
   \<not> canStore exGetTime 1889136000000 (exItem (js ''A1'') (js ''2030-01-01'') active) \<and>
   (1858896000000 :: int) < 1889136000000 \<and>
   canSell exGetTime 1858896000000 (exItem (js ''A1'') (js ''2030-01-01'') active) \<and>
   \<not> canSell exGetTime 1889136000000 (exItem (js ''A1'') (js ''2030-01-01'') active)"
  by code_simp

text \<open>
  Claim C3, amended. For an item whose found date is not later than the first query
  time, with the item fixed and only the clock varying: \<^const>\<open>canStore\<close> holds exactly
  when the status is \<open>active\<close> and the elapsed days are at least 100 (more than 99
  whole days have passed), \<^const>\<open>canSell\<close> exactly when the status is \<open>active\<close> or
  \<open>stored\<close> and the elapsed days are at least 366 (more than 365 whole days have
  passed); each, once true, stays true at every later time. For a found date that cannot be parsed both are false at every time.
\<close>

theorem age_gates_monotone:
  "(getTime (foundDate item) = Some found \<and> found \<le> now1 \<and> now1 \<le> now2 \<longrightarrow>
      (\<exists>days. getDaysSinceFound getTime now1 (foundDate item) = Some days \<and>
         (canStore getTime now1 item \<longleftrightarrow> status item = active \<and> 100 \<le> days) \<and>
         (canSell getTime now1 item \<longleftrightarrow>
            (status item = active \<or> status item = stored) \<and> 366 \<le> days)) \<and>
      (canStore getTime now1 item \<longleftrightarrow> status item = active \<and> 99 * msPerDay < now1 - found) \<and>
      (canSell getTime now1 item \<longleftrightarrow>
         (status item = active \<or> status item = stored) \<and> 365 * msPerDay < now1 - found) \<and>
      (canStore getTime now1 item \<longrightarrow> canStore getTime now2 item) \<and>
      (canSell getTime now1 item \<longrightarrow> canSell getTime now2 item)) \<and>
   (getTime (foundDate item) = None \<longrightarrow>
      \<not> canStore getTime now1 item \<and> \<not> canSell getTime now1 item)"
proof (intro conjI impI)
  assume a: "getTime (foundDate item) = Some found \<and> found \<le> now1 \<and> now1 \<le> now2"
  then have f: "getTime (foundDate item) = Some found" and le: "found \<le> now1" "now1 \<le> now2"
    by simp_all
  show "\<exists>days. getDaysSinceFound getTime now1 (foundDate item) = Some days \<and>
         (canStore getTime now1 item \<longleftrightarrow> status item = active \<and> 100 \<le> days) \<and>
         (canSell getTime now1 item \<longleftrightarrow>
            (status item = active \<or> status item = stored) \<and> 366 \<le> days)"
    using f by (auto simp: canStore_def canSell_def getDaysSinceFound_def)
  show "canStore getTime now1 item \<longleftrightarrow> status item = active \<and> 99 * msPerDay < now1 - found"
    using le by (simp add: canStore_threshold [of getTime item found, OF f])
  show "canSell getTime now1 item \<longleftrightarrow>
         (status item = active \<or> status item = stored) \<and> 365 * msPerDay < now1 - found"
    using le by (simp add: canSell_threshold [of getTime item found, OF f])
  { assume "canStore getTime now1 item"
    then show "canStore getTime now2 item"
      using le by (simp add: canStore_threshold [of getTime item found, OF f]) }
  { assume "canSell getTime now1 item"
    then show "canSell getTime now2 item"
      using le by (simp add: canSell_threshold [of getTime item found, OF f]) }
next
  assume n: "getTime (foundDate item) = None"
  show "\<not> canStore getTime now1 item"
    using n by (simp add: canStore_def getDaysSinceFound_def)
  show "\<not> canSell getTime now1 item"
    using n by (simp add: canSell_def getDaysSinceFound_def)
qed

theorem age_gates_monotone_witness:
  "exGetTime (foundDate (exItem (js ''A1'') (js ''2030-01-01'') active)) = Some 1893456000000 \<and>
   (1893456000000 :: int) \<le> 1902096000000 \<and> (1902096000000 :: int) \<le> 1925078400000 \<and>
   canStore exGetTime 1902096000000 (exItem (js ''A1'') (js ''2030-01-01'') active) \<and>
   canStore exGetTime 1925078400000 (exItem (js ''A1'') (js ''2030-01-01'') active) \<and>
   \<not> canSell exGetTime 1902096000000 (exItem (js ''A1'') (js ''2030-01-01'') active) \<and>
   exGetTime (foundDate (exItem (js ''A1'') (js ''soon'') active)) = None \<and>
   \<not> canStore exGetTime 1902096000000 (exItem (js ''A1'') (js ''soon'') active)"
proof -
  let ?it = "exItem (js ''A1'') (js ''2030-01-01'') active"
  have f: "exGetTime (foundDate ?it) = Some 1893456000000"
    by code_simp
  have n: "exGetTime (foundDate (exItem (js ''A1'') (js ''soon'') active)) = None"
    by code_simp
  have st: "status ?it = active" by (simp add: exItem_def)
  have d1: "99 * msPerDay < 1902096000000 - (1893456000000 :: int)"
    and d2: "\<not> 365 * msPerDay < 1902096000000 - (1893456000000 :: int)"
    by (simp_all add: msPerDay_def)
  from age_gates_monotone [of exGetTime ?it 1893456000000 1902096000000 1925078400000] f st d1 d2
  have "canStore exGetTime 1902096000000 ?it"
    and "canStore exGetTime 1925078400000 ?it"
    and "\<not> canSell exGetTime 1902096000000 ?it"
    by simp_all
  moreover from age_gates_monotone [of exGetTime "exItem (js ''A1'') (js ''soon'') active" 0 1902096000000 0] n
  have "\<not> canStore exGetTime 1902096000000 (exItem (js ''A1'') (js ''soon'') active)"
    by blast
  ultimately show ?thesis using f n by simp
qed

subsection \<open>Idle expiry\<close>

text \<open>
  Claim C7. For a logged-in session whose last recorded activity is at \<open>T\<close>, the
  inactivity check at \<open>T\<close> plus 121 seconds logs out: the component's user, the stored
  current user and the activity marker are all cleared. The check at \<open>T\<close> plus 90
  seconds leaves the session as it is. In general the check logs out exactly when
  more than \<^const>\<open>INACTIVITY_TIMEOUT\<close> milliseconds (120 seconds) have elapsed.
\<close>

theorem idle_expiry:
  "last_activity s = Some T \<longrightarrow>
     checkInactivity (T + 121 * 1000) (Some u, s) =
       (Some InactivityLogout, (None, s\<lparr>current_user := None, last_activity := None\<rparr>)) \<and>
     checkInactivity (T + 90 * 1000) (Some u, s) = (None, (Some u, s)) \<and>
     checkInactivity nowMs (Some u, s) =
       (if nowMs - T > 120 * 1000
        then (Some InactivityLogout, (None, s\<lparr>current_user := None, last_activity := None\<rparr>))
        else (None, (Some u, s)))"
  by (simp add: checkInactivity_def handleLogout_def logoutUser_def setCurrentUser_def
        INACTIVITY_TIMEOUT_def)

theorem idle_expiry_witness:
  "last_activity (snd exSession) = Some 1700000000000 \<and>
   fst (checkInactivity (1700000000000 + 121 * 1000) (Some exAdmin, snd exSession))
     = Some InactivityLogout \<and>
   fst (snd (checkInactivity (1700000000000 + 121 * 1000) (Some exAdmin, snd exSession))) = None \<and>
   current_user (snd (snd (checkInactivity (1700000000000 + 121 * 1000) (Some exAdmin, snd exSession))))
     = None \<and>
   last_activity (snd (snd (checkInactivity (1700000000000 + 121 * 1000) (Some exAdmin, snd exSession))))
     = None \<and>
   checkInactivity (1700000000000 + 90 * 1000) (Some exAdmin, snd exSession)
     = (None, (Some exAdmin, snd exSession))"
proof -
  have h: "last_activity (snd exSession) = Some 1700000000000"
    by (simp add: exSession_def)
  from idle_expiry [of "snd exSession" 1700000000000 exAdmin 0] h
  show ?thesis by simp
qed

subsection \<open>Self-protection in user management\<close>

text \<open>
  Claim C6. Whoever the acting user is and whatever users the storage holds, a
  confirmed delete whose target is the acting user's own id leaves the storage and
  the listed users unchanged and deletes nobody, and a role change whose target is
  the acting user's own id is rejected with the storage and the dialog unchanged.
\<close>

theorem self_protection:
  "currentUser = Some cu \<longrightarrow>
     (deleteConfirm um = Some (user_id cu) \<longrightarrow>
        snd (snd (confirmDelete currentUser t (um, s))) = s \<and>
        um_users (fst (snd (confirmDelete currentUser t (um, s)))) = um_users um \<and>
        fst (confirmDelete currentUser t (um, s)) \<noteq> Some UserDeleted \<and>
        (user_id cu \<noteq> [] \<longrightarrow>
           confirmDelete currentUser t (um, s)
             = (Some CannotDeleteSelf, um\<lparr>deleteConfirm := None\<rparr>, s))) \<and>
     handleRoleChange (user_id cu) r currentUser t (um, s) = (CannotChangeOwnRole, um, s)"
  by (simp add: confirmDelete_def handleRoleChange_def)

theorem self_protection_witness:
  "deleteConfirm (exUM (Some (js ''1'')) (exNewUser [])) = Some (user_id exAdmin) \<and>
   confirmDelete (Some exAdmin) (js ''t1'') (exUM (Some (js ''1'')) (exNewUser []), exStorage [] [])
     = (Some CannotDeleteSelf, (exUM (Some (js ''1'')) (exNewUser []))\<lparr>deleteConfirm := None\<rparr>,
        exStorage [] []) \<and>
   handleRoleChange (user_id exAdmin) user (Some exAdmin) (js ''t1'')
       (exUM None (exNewUser []), exStorage [] [])
     = (CannotChangeOwnRole, exUM None (exNewUser []), exStorage [] [])"
proof -
  have id: "user_id exAdmin = (js ''1'')"
    by (simp add: exAdmin_def defaultUsers_def)
  have ne: "js ''1'' \<noteq> []" by (simp add: js_def)
  have h: "deleteConfirm (exUM (Some (js ''1'')) (exNewUser [])) = Some (user_id exAdmin)"
    by (simp add: exUM_def id)
  from self_protection [of "Some exAdmin" exAdmin "exUM (Some (js ''1'')) (exNewUser [])" "(js ''t1'')"
      "exStorage [] []" user] h id ne
  have a: "confirmDelete (Some exAdmin) (js ''t1'') (exUM (Some (js ''1'')) (exNewUser []), exStorage [] [])
     = (Some CannotDeleteSelf, (exUM (Some (js ''1'')) (exNewUser []))\<lparr>deleteConfirm := None\<rparr>,
        exStorage [] [])"
    by simp
  from self_protection [of "Some exAdmin" exAdmin "exUM None (exNewUser [])" "(js ''t1'')"
      "exStorage [] []" user]
  have b: "handleRoleChange (user_id exAdmin) user (Some exAdmin) (js ''t1'')
       (exUM None (exNewUser []), exStorage [] [])
     = (CannotChangeOwnRole, exUM None (exNewUser []), exStorage [] [])"
    by simp
  from h a b show ?thesis by blast
qed

subsection \<open>Creating a user whose email differs by letter case only\<close>

text \<open>
  Claim C8 at a concrete input. The two default users are registered and the
  administrator adds a user with the email \<open>Admin@example.com\<close>. The test of
  \<^const>\<open>handleAddUser\<close> compares the emails as they are written, so the user is created
  and the collection holds two emails that are equal up to letter case, while
  \<^const>\<open>loginUser\<close> and step 1 of the handover compare emails in lower case: step 1
  finds the older user first and refuses the new user's own credentials. An email
  written exactly like a registered one is refused and nothing changes.
\<close>

theorem handleAddUser_case_variant:
  "fst (handleAddUser (Some exAdmin) (js ''u3'') (js ''t1'')
          (exUM None (exNewUser (js ''Admin@example.com'')), exStorage [] [])) = UserCreated \<and>
   map email (um_users (fst (snd (handleAddUser (Some exAdmin) (js ''u3'') (js ''t1'')
          (exUM None (exNewUser (js ''Admin@example.com'')), exStorage [] [])))))
     = [(js ''admin@example.com''), (js ''user@example.com''), (js ''Admin@example.com'')] \<and>
   map_option (map email) (users (snd (snd (handleAddUser (Some exAdmin) (js ''u3'') (js ''t1'')
          (exUM None (exNewUser (js ''Admin@example.com'')), exStorage [] [])))))
     = Some [(js ''admin@example.com''), (js ''user@example.com''), (js ''Admin@example.com'')] \<and>
   toLowerCase exRuntime (js ''Admin@example.com'') = toLowerCase exRuntime (js ''admin@example.com'') \<and>
   map_option user_id (fst (loginUser exRuntime (js ''Admin@example.com'') (js ''admin123'') (js ''t2'') (exStorage [] [])))
     = Some (js ''1'') \<and>
   fst (handleAuthSubmit exRuntime 0 (js ''t2'')
          (exAuthDialog (js ''Admin@example.com'') (js ''pw2''),
           (None, snd (snd (handleAddUser (Some exAdmin) (js ''u3'') (js ''t1'')
              (exUM None (exNewUser (js ''Admin@example.com'')), exStorage [] [])))))) = BadCredentials \<and>
   handleAddUser (Some exAdmin) (js ''u3'') (js ''t1'')
          (exUM None (exNewUser (js ''admin@example.com'')), exStorage [] [])
     = (EmailTaken, exUM None (exNewUser (js ''admin@example.com'')), exStorage [] [])"
  by code_simp

subsection \<open>Scan confirmation\<close>









subsection \<open>The two patterns of step 3\<close>

lemma emailChar_dot: "emailChar (u16 CHR ''.'')"
  by code_simp

lemma emailChar_at: "\<not> emailChar (u16 CHR ''@'')"
  by (simp add: emailChar_def)

text \<open>\<^const>\<open>emailRegex_test\<close> accepts exactly the texts of the shape that the pattern
  describes.\<close>

lemma emailRegex_test_iff:
  "emailRegex_test s \<longleftrightarrow>
     (\<exists>a b c. s = a @ u16 CHR ''@'' # b @ u16 CHR ''.'' # c \<and> a \<noteq> [] \<and> b \<noteq> [] \<and> c \<noteq> [] \<and>
        list_all emailChar a \<and> list_all emailChar b \<and> list_all emailChar c)"
proof
  assume t: "emailRegex_test s"
  let ?a = "takeWhile emailChar s"
  from t obtain r where a: "?a \<noteq> []" and d: "dropWhile emailChar s = u16 CHR ''@'' # r"
    and r: "list_all emailChar r" and dot: "u16 CHR ''.'' \<in> set (butlast (tl r))"
    by (auto simp: emailRegex_test_def split: list.splits)
  from dot obtain p q where pq: "butlast (tl r) = p @ u16 CHR ''.'' # q"
    by (auto dest: split_list)
  then have ne: "tl r \<noteq> []" by auto
  then have rne: "r \<noteq> []" by auto
  have tl: "tl r = p @ u16 CHR ''.'' # (q @ [last (tl r)])"
    using append_butlast_last_id [OF ne] pq by simp
  have req: "r = (hd r # p) @ u16 CHR ''.'' # (q @ [last (tl r)])"
    using rne tl by (cases r) simp_all
  have s: "s = ?a @ u16 CHR ''@'' # (hd r # p) @ u16 CHR ''.'' # (q @ [last (tl r)])"
    using takeWhile_dropWhile_id [of emailChar s] d req by simp
  have la: "list_all emailChar ?a"
    by (simp add: list_all_iff) (meson set_takeWhileD)
  have "list_all emailChar ((hd r # p) @ u16 CHR ''.'' # (q @ [last (tl r)]))"
    using r req by simp
  then have lb: "list_all emailChar (hd r # p)" and lc: "list_all emailChar (q @ [last (tl r)])"
    by simp_all
  show "\<exists>a b c. s = a @ u16 CHR ''@'' # b @ u16 CHR ''.'' # c \<and> a \<noteq> [] \<and> b \<noteq> [] \<and> c \<noteq> [] \<and>
        list_all emailChar a \<and> list_all emailChar b \<and> list_all emailChar c"
    using s a la lb lc by blast
next
  assume "\<exists>a b c. s = a @ u16 CHR ''@'' # b @ u16 CHR ''.'' # c \<and> a \<noteq> [] \<and> b \<noteq> [] \<and> c \<noteq> [] \<and>
        list_all emailChar a \<and> list_all emailChar b \<and> list_all emailChar c"
  then obtain a b c where s: "s = a @ u16 CHR ''@'' # b @ u16 CHR ''.'' # c"
    and ne: "a \<noteq> []" "b \<noteq> []" "c \<noteq> []"
    and all: "list_all emailChar a" "list_all emailChar b" "list_all emailChar c"
    by blast
  have tw: "takeWhile emailChar s = a"
    using all(1) emailChar_at by (simp add: s list_all_iff takeWhile_append2)
  have dw: "dropWhile emailChar s = u16 CHR ''@'' # b @ u16 CHR ''.'' # c"
    using all(1) emailChar_at by (simp add: s list_all_iff dropWhile_append2)
  obtain x b' where b: "b = x # b'" using ne(2) by (cases b) auto
  have "butlast (tl (b @ u16 CHR ''.'' # c)) = b' @ u16 CHR ''.'' # butlast c"
    using ne(3) by (simp add: b butlast_append)
  then have dot: "u16 CHR ''.'' \<in> set (butlast (tl (b @ u16 CHR ''.'' # c)))" by simp
  have "list_all emailChar (b @ u16 CHR ''.'' # c)"
    using all emailChar_dot by simp
  with tw dw ne(1) dot show "emailRegex_test s"
    by (simp add: emailRegex_test_def)
qed

lemma phoneRegex_test_iff:
  "phoneRegex_test s \<longleftrightarrow>
     s \<noteq> [] \<and> (\<forall>c\<in>set s. isDigit c \<or> isSpace c \<or> c \<in> set (js ''+-()''))"
  by (simp add: phoneRegex_test_def phoneChar_def list_all_iff)

subsection \<open>Handover step 3\<close>

lemma falsy_Some: "falsy (Some u) \<longleftrightarrow> u = []"
  by (simp add: falsy_def)

lemma handleSubmit_rejected:
  assumes "isAuthenticated d" and "handoverUserId d = Some u" and "u \<noteq> []" and "isScanned d"
    and "trim (fd_recipientName (formData d)) = [] \<or>
         trim (fd_recipientAddress (formData d)) = [] \<or>
         fd_recipientIdDocType (formData d) = [] \<or>
         trim (fd_recipientIdDocNumber (formData d)) = [] \<or>
         (fd_recipientEmail (formData d) \<noteq> [] \<and> \<not> emailRegex_test (fd_recipientEmail (formData d))) \<or>
         (fd_recipientPhone (formData d) \<noteq> [] \<and> \<not> phoneRegex_test (fd_recipientPhone (formData d)))"
  shows "snd (handleSubmit item t d s) = s \<and>
         fst (handleSubmit item t d s) \<in>
           {NameRequired, AddressRequired, DocTypeRequired, DocNumberRequired, BadEmail, BadPhone}"
  using assms
  by (auto simp: handleSubmit_def Let_def falsy_Some validateEmail_def validatePhone_def)

lemma handleSubmit_accepted:
  assumes "isAuthenticated d" and "handoverUserId d = Some u" and "u \<noteq> []" and "isScanned d"
    and "\<not> (trim (fd_recipientName (formData d)) = [] \<or>
         trim (fd_recipientAddress (formData d)) = [] \<or>
         fd_recipientIdDocType (formData d) = [] \<or>
         trim (fd_recipientIdDocNumber (formData d)) = [] \<or>
         (fd_recipientEmail (formData d) \<noteq> [] \<and> \<not> emailRegex_test (fd_recipientEmail (formData d))) \<or>
         (fd_recipientPhone (formData d) \<noteq> [] \<and> \<not> phoneRegex_test (fd_recipientPhone (formData d))))"
  shows "handleSubmit (Some it) t d s =
           (case (if status it = stored
                  then handOverStoredItem (item_id it) u (recipientDataOf (formData d)) t s
                  else handOverItem (item_id it) u (recipientDataOf (formData d)) t s) of
              (Some r, s1) \<Rightarrow> (HandoverOk, s1)
            | (None, s1) \<Rightarrow> (HandoverFailed, s1))"
  using assms
  by (auto simp: handleSubmit_def Let_def falsy_Some validateEmail_def validatePhone_def
        split: prod.splits option.splits)

lemma handleSubmit_moves:
  assumes reach: "isAuthenticated d" "handoverUserId d = Some u" "u \<noteq> []" "isScanned d"
    and valid: "\<not> (trim (fd_recipientName (formData d)) = [] \<or>
         trim (fd_recipientAddress (formData d)) = [] \<or>
         fd_recipientIdDocType (formData d) = [] \<or>
         trim (fd_recipientIdDocNumber (formData d)) = [] \<or>
         (fd_recipientEmail (formData d) \<noteq> [] \<and> \<not> emailRegex_test (fd_recipientEmail (formData d))) \<or>
         (fd_recipientPhone (formData d) \<noteq> [] \<and> \<not> phoneRegex_test (fd_recipientPhone (formData d))))"
    and it: "it \<in> set (getFoundItems s)"
  shows "\<exists>pre first post.
           getFoundItems s = pre @ first # post \<and>
           (\<forall>x\<in>set pre.
              \<not> (item_id x = item_id it \<and> (status it = stored \<longrightarrow> status x = stored))) \<and>
           item_id first = item_id it \<and>
           (status it = stored \<longrightarrow> status first = stored) \<and>
           (distinct (map item_id (getFoundItems s)) \<longrightarrow> first = it) \<and>
           handleSubmit (Some it) t d s =
             (HandoverOk,
              s\<lparr>found_items := Some (pre @ post),
                handed_over_items :=
                  Some (getHandedOverItems s
                        @ [mkHandedOver first t u (recipientDataOf (formData d))])\<rparr>)"
proof (cases "status it = stored")
  case True
  from handOverStoredItem_present [OF it True, of u "recipientDataOf (formData d)" t]
  obtain pre first post where all:
    "getFoundItems s = pre @ first # post \<and>
     (\<forall>x\<in>set pre. \<not> (item_id x = item_id it \<and> status x = stored)) \<and>
     item_id first = item_id it \<and> status first = stored \<and>
     (distinct (map item_id (getFoundItems s)) \<longrightarrow> first = it) \<and>
     handOverStoredItem (item_id it) u (recipientDataOf (formData d)) t s =
       (Some (mkHandedOver first t u (recipientDataOf (formData d))),
        s\<lparr>found_items := Some (pre @ post),
          handed_over_items :=
            Some (getHandedOverItems s
                  @ [mkHandedOver first t u (recipientDataOf (formData d))])\<rparr>)"
    by (elim exE) (erule that)
  from all have split: "getFoundItems s = pre @ first # post" by (elim conjE)
  from all have before: "\<forall>x\<in>set pre. \<not> (item_id x = item_id it \<and> status x = stored)"
    by (elim conjE)
  from all have same: "item_id first = item_id it" by (elim conjE)
  from all have st: "status first = stored" by (elim conjE)
  from all have uniq: "distinct (map item_id (getFoundItems s)) \<longrightarrow> first = it"
    by (elim conjE)
  from all have run: "handOverStoredItem (item_id it) u (recipientDataOf (formData d)) t s =
             (Some (mkHandedOver first t u (recipientDataOf (formData d))),
              s\<lparr>found_items := Some (pre @ post),
                handed_over_items :=
                  Some (getHandedOverItems s
                        @ [mkHandedOver first t u (recipientDataOf (formData d))])\<rparr>)"
    by (elim conjE)
  have res: "handleSubmit (Some it) t d s =
             (HandoverOk,
              s\<lparr>found_items := Some (pre @ post),
                handed_over_items :=
                  Some (getHandedOverItems s
                        @ [mkHandedOver first t u (recipientDataOf (formData d))])\<rparr>)"
    by (simp add: handleSubmit_accepted [OF reach valid] True run)
  show ?thesis
  proof (rule exI [of _ pre], rule exI [of _ first], rule exI [of _ post], intro conjI)
    show "getFoundItems s = pre @ first # post" by (rule split)
    show "(\<forall>x\<in>set pre. \<not> (item_id x = item_id it \<and> (status it = stored \<longrightarrow> status x = stored)))"
      using before True by simp
    show "item_id first = item_id it" by (rule same)
    show "status it = stored \<longrightarrow> status first = stored" using st by simp
    show "distinct (map item_id (getFoundItems s)) \<longrightarrow> first = it" by (rule uniq)
    show "handleSubmit (Some it) t d s =
             (HandoverOk,
              s\<lparr>found_items := Some (pre @ post),
                handed_over_items :=
                  Some (getHandedOverItems s
                        @ [mkHandedOver first t u (recipientDataOf (formData d))])\<rparr>)"
      by (rule res)
  qed
next
  case False
  from handOverItem_present [OF it, of u "recipientDataOf (formData d)" t]
  obtain pre first post where all:
    "getFoundItems s = pre @ first # post \<and>
     (\<forall>x\<in>set pre. item_id x \<noteq> item_id it) \<and> item_id first = item_id it \<and>
     (distinct (map item_id (getFoundItems s)) \<longrightarrow> first = it) \<and>
     handOverItem (item_id it) u (recipientDataOf (formData d)) t s =
       (Some (mkHandedOver first t u (recipientDataOf (formData d))),
        s\<lparr>found_items := Some (pre @ post),
          handed_over_items :=
            Some (getHandedOverItems s
                  @ [mkHandedOver first t u (recipientDataOf (formData d))])\<rparr>)"
    by (elim exE) (erule that)
  from all have split: "getFoundItems s = pre @ first # post" by (elim conjE)
  from all have before: "\<forall>x\<in>set pre. item_id x \<noteq> item_id it" by (elim conjE)
  from all have same: "item_id first = item_id it" by (elim conjE)
  from all have uniq: "distinct (map item_id (getFoundItems s)) \<longrightarrow> first = it"
    by (elim conjE)
  from all have run: "handOverItem (item_id it) u (recipientDataOf (formData d)) t s =
             (Some (mkHandedOver first t u (recipientDataOf (formData d))),
              s\<lparr>found_items := Some (pre @ post),
                handed_over_items :=
                  Some (getHandedOverItems s
                        @ [mkHandedOver first t u (recipientDataOf (formData d))])\<rparr>)"
    by (elim conjE)
  have res: "handleSubmit (Some it) t d s =
             (HandoverOk,
              s\<lparr>found_items := Some (pre @ post),
                handed_over_items :=
                  Some (getHandedOverItems s
                        @ [mkHandedOver first t u (recipientDataOf (formData d))])\<rparr>)"
    by (simp add: handleSubmit_accepted [OF reach valid] False run)
  show ?thesis
  proof (rule exI [of _ pre], rule exI [of _ first], rule exI [of _ post], intro conjI)
    show "getFoundItems s = pre @ first # post" by (rule split)
    show "(\<forall>x\<in>set pre. \<not> (item_id x = item_id it \<and> (status it = stored \<longrightarrow> status x = stored)))"
      using before False by simp
    show "item_id first = item_id it" by (rule same)
    show "status it = stored \<longrightarrow> status first = stored" using False by simp
    show "distinct (map item_id (getFoundItems s)) \<longrightarrow> first = it" by (rule uniq)
    show "handleSubmit (Some it) t d s =
             (HandoverOk,
              s\<lparr>found_items := Some (pre @ post),
                handed_over_items :=
                  Some (getHandedOverItems s
                        @ [mkHandedOver first t u (recipientDataOf (formData d))])\<rparr>)"
      by (rule res)
  qed
qed

lemma archived_record:
  "FoundItem.truncate (mkHandedOver first t u (recipientDataOf f)) = first\<lparr>status := handed_over\<rparr> \<and>
   handedOverAt (mkHandedOver first t u (recipientDataOf f)) = t \<and>
   handedOverByUserId (mkHandedOver first t u (recipientDataOf f)) = u \<and>
   recipientName (mkHandedOver first t u (recipientDataOf f)) = trim (fd_recipientName f) \<and>
   recipientAddress (mkHandedOver first t u (recipientDataOf f)) = trim (fd_recipientAddress f) \<and>
   recipientEmail (mkHandedOver first t u (recipientDataOf f))
     = orUndefined (trim (fd_recipientEmail f)) \<and>
   recipientPhone (mkHandedOver first t u (recipientDataOf f))
     = orUndefined (trim (fd_recipientPhone f)) \<and>
   recipientIdDocType (mkHandedOver first t u (recipientDataOf f)) = Some (fd_recipientIdDocType f) \<and>
   recipientIdDocNumber (mkHandedOver first t u (recipientDataOf f))
     = Some (trim (fd_recipientIdDocNumber f))"
  by (simp add: mkHandedOver_base recipientDataOf_def)

text \<open>
  Claim C1, as stated, fails in its last part, in two ways. The archived record is
  not equal to the item in the fields they share: an active item handed over with a
  valid form leaves the active collection, and the record appended to the archive,
  cut down to the fields of an item, is the item with status \<open>handed_over\<close>, not the
  item. And when two active records share the id of the target, the first of them is
  removed and archived: for the second one as target, the target stays in the active
  collection and the archived record stems from the other record.
\<close>

theorem handover_record_counterexample:
  "fst (handleSubmit (Some (exItem (js ''6553F10000000000'') (js ''2023-11-14'') active)) (js ''t1'')
          (exDialog (exForm (js ''Nagy Bela'') []))
          (exStorage [exItem (js ''6553F10000000000'') (js ''2023-11-14'') active] [])) = HandoverOk \<and>
   getFoundItems (snd (handleSubmit (Some (exItem (js ''6553F10000000000'') (js ''2023-11-14'') active)) (js ''t1'')
          (exDialog (exForm (js ''Nagy Bela'') []))
          (exStorage [exItem (js ''6553F10000000000'') (js ''2023-11-14'') active] []))) = [] \<and>
   map FoundItem.truncate
     (getHandedOverItems (snd (handleSubmit (Some (exItem (js ''6553F10000000000'') (js ''2023-11-14'') active))
          (js ''t1'') (exDialog (exForm (js ''Nagy Bela'') []))
          (exStorage [exItem (js ''6553F10000000000'') (js ''2023-11-14'') active] []))))
     = [exItem (js ''6553F10000000000'') (js ''2023-11-14'') handed_over] \<and>
   exItem (js ''6553F10000000000'') (js ''2023-11-14'') handed_over \<noteq> exItem (js ''6553F10000000000'') (js ''2023-11-14'') active \<and>
   exItem (js ''6553F10000000000'') (js ''2023-11-15'') sold
     \<in> set (getFoundItems (exStorage
         [exItem (js ''6553F10000000000'') (js ''2023-11-14'') active, exItem (js ''6553F10000000000'') (js ''2023-11-15'') sold] [])) \<and>
   fst (handleSubmit (Some (exItem (js ''6553F10000000000'') (js ''2023-11-15'') sold)) (js ''t1'')
          (exDialog (exForm (js ''Nagy Bela'') []))
          (exStorage [exItem (js ''6553F10000000000'') (js ''2023-11-14'') active, exItem (js ''6553F10000000000'') (js ''2023-11-15'') sold] []))
     = HandoverOk \<and>
   getFoundItems (snd (handleSubmit (Some (exItem (js ''6553F10000000000'') (js ''2023-11-15'') sold)) (js ''t1'')
          (exDialog (exForm (js ''Nagy Bela'') []))
          (exStorage [exItem (js ''6553F10000000000'') (js ''2023-11-14'') active, exItem (js ''6553F10000000000'') (js ''2023-11-15'') sold] [])))
     = [exItem (js ''6553F10000000000'') (js ''2023-11-15'') sold] \<and>
   map FoundItem.truncate
     (getHandedOverItems (snd (handleSubmit (Some (exItem (js ''6553F10000000000'') (js ''2023-11-15'') sold)) (js ''t1'')
          (exDialog (exForm (js ''Nagy Bela'') []))
          (exStorage [exItem (js ''6553F10000000000'') (js ''2023-11-14'') active, exItem (js ''6553F10000000000'') (js ''2023-11-15'') sold] []))))
     = [exItem (js ''6553F10000000000'') (js ''2023-11-14'') handed_over] \<and>
   exItem (js ''6553F10000000000'') (js ''2023-11-14'') handed_over \<noteq> exItem (js ''6553F10000000000'') (js ''2023-11-15'') handed_over"
  by code_simp

text \<open>
  Claim C1, amended. For a submission that reaches step 3 (authenticated, with the
  actor id of step 1, and scanned): if the name, the address or the document number
  is empty after trimming, or the document type is empty, or a non-empty email or
  phone fails its pattern, the submission is rejected with a validation message and
  the storage is exactly as before. If all checks pass and the target item is in the
  active collection, then in the same call the first active record with the target's
  id, and with status \<open>stored\<close> when the target is stored, is removed from the active
  collection (no record before it has that id and status; it is the target itself
  when the ids of the collection are distinct), and a record is appended to the
  archive that equals the removed one in every field of an item except the status,
  which is \<open>handed_over\<close>, and carries the handover time, the actor id of step 1 and
  the trimmed recipient fields.
\<close>

theorem handleSubmit_atomicity:
  "isAuthenticated d \<and> handoverUserId d = Some u \<and> u \<noteq> [] \<and> isScanned d \<longrightarrow>
   ((trim (fd_recipientName (formData d)) = [] \<or>
       trim (fd_recipientAddress (formData d)) = [] \<or>
       fd_recipientIdDocType (formData d) = [] \<or>
       trim (fd_recipientIdDocNumber (formData d)) = [] \<or>
       (fd_recipientEmail (formData d) \<noteq> [] \<and> \<not> emailRegex_test (fd_recipientEmail (formData d))) \<or>
       (fd_recipientPhone (formData d) \<noteq> [] \<and> \<not> phoneRegex_test (fd_recipientPhone (formData d)))) \<longrightarrow>
      snd (handleSubmit item t d s) = s \<and>
      fst (handleSubmit item t d s) \<in>
        {NameRequired, AddressRequired, DocTypeRequired, DocNumberRequired, BadEmail, BadPhone}) \<and>
   (\<not> (trim (fd_recipientName (formData d)) = [] \<or>
       trim (fd_recipientAddress (formData d)) = [] \<or>
       fd_recipientIdDocType (formData d) = [] \<or>
       trim (fd_recipientIdDocNumber (formData d)) = [] \<or>
       (fd_recipientEmail (formData d) \<noteq> [] \<and> \<not> emailRegex_test (fd_recipientEmail (formData d))) \<or>
       (fd_recipientPhone (formData d) \<noteq> [] \<and> \<not> phoneRegex_test (fd_recipientPhone (formData d)))) \<and> it \<in> set (getFoundItems s) \<longrightarrow>
      (\<exists>pre first post.
         getFoundItems s = pre @ first # post \<and>
         (\<forall>x\<in>set pre.
              \<not> (item_id x = item_id it \<and> (status it = stored \<longrightarrow> status x = stored))) \<and>
         item_id first = item_id it \<and>
         (status it = stored \<longrightarrow> status first = stored) \<and>
         (distinct (map item_id (getFoundItems s)) \<longrightarrow> first = it) \<and>
         handleSubmit (Some it) t d s =
           (HandoverOk,
            s\<lparr>found_items := Some (pre @ post),
              handed_over_items :=
                Some (getHandedOverItems s
                      @ [mkHandedOver first t u (recipientDataOf (formData d))])\<rparr>) \<and>
         FoundItem.truncate (mkHandedOver first t u (recipientDataOf (formData d)))
           = first\<lparr>status := handed_over\<rparr> \<and>
         handedOverAt (mkHandedOver first t u (recipientDataOf (formData d))) = t \<and>
         handedOverByUserId (mkHandedOver first t u (recipientDataOf (formData d))) = u \<and>
         recipientName (mkHandedOver first t u (recipientDataOf (formData d)))
           = trim (fd_recipientName (formData d)) \<and>
         recipientAddress (mkHandedOver first t u (recipientDataOf (formData d)))
           = trim (fd_recipientAddress (formData d)) \<and>
         recipientEmail (mkHandedOver first t u (recipientDataOf (formData d)))
           = orUndefined (trim (fd_recipientEmail (formData d))) \<and>
         recipientPhone (mkHandedOver first t u (recipientDataOf (formData d)))
           = orUndefined (trim (fd_recipientPhone (formData d))) \<and>
         recipientIdDocType (mkHandedOver first t u (recipientDataOf (formData d)))
           = Some (fd_recipientIdDocType (formData d)) \<and>
         recipientIdDocNumber (mkHandedOver first t u (recipientDataOf (formData d)))
           = Some (trim (fd_recipientIdDocNumber (formData d)))))"
proof (intro impI conjI)
  assume r: "isAuthenticated d \<and> handoverUserId d = Some u \<and> u \<noteq> [] \<and> isScanned d"
  assume "trim (fd_recipientName (formData d)) = [] \<or>
       trim (fd_recipientAddress (formData d)) = [] \<or>
       fd_recipientIdDocType (formData d) = [] \<or>
       trim (fd_recipientIdDocNumber (formData d)) = [] \<or>
       (fd_recipientEmail (formData d) \<noteq> [] \<and> \<not> emailRegex_test (fd_recipientEmail (formData d))) \<or>
       (fd_recipientPhone (formData d) \<noteq> [] \<and> \<not> phoneRegex_test (fd_recipientPhone (formData d)))"
  with r show "snd (handleSubmit item t d s) = s"
    using handleSubmit_rejected [of d u item t s] by blast
next
  assume r: "isAuthenticated d \<and> handoverUserId d = Some u \<and> u \<noteq> [] \<and> isScanned d"
  assume "trim (fd_recipientName (formData d)) = [] \<or>
       trim (fd_recipientAddress (formData d)) = [] \<or>
       fd_recipientIdDocType (formData d) = [] \<or>
       trim (fd_recipientIdDocNumber (formData d)) = [] \<or>
       (fd_recipientEmail (formData d) \<noteq> [] \<and> \<not> emailRegex_test (fd_recipientEmail (formData d))) \<or>
       (fd_recipientPhone (formData d) \<noteq> [] \<and> \<not> phoneRegex_test (fd_recipientPhone (formData d)))"
  with r show "fst (handleSubmit item t d s) \<in>
        {NameRequired, AddressRequired, DocTypeRequired, DocNumberRequired, BadEmail, BadPhone}"
    using handleSubmit_rejected [of d u item t s] by blast
next
  assume r: "isAuthenticated d \<and> handoverUserId d = Some u \<and> u \<noteq> [] \<and> isScanned d"
  assume v: "\<not> (trim (fd_recipientName (formData d)) = [] \<or>
       trim (fd_recipientAddress (formData d)) = [] \<or>
       fd_recipientIdDocType (formData d) = [] \<or>
       trim (fd_recipientIdDocNumber (formData d)) = [] \<or>
       (fd_recipientEmail (formData d) \<noteq> [] \<and> \<not> emailRegex_test (fd_recipientEmail (formData d))) \<or>
       (fd_recipientPhone (formData d) \<noteq> [] \<and> \<not> phoneRegex_test (fd_recipientPhone (formData d)))) \<and> it \<in> set (getFoundItems s)"
  from r have reach: "isAuthenticated d" "handoverUserId d = Some u" "u \<noteq> []" "isScanned d"
    by simp_all
  from v have valid: "\<not> (trim (fd_recipientName (formData d)) = [] \<or>
       trim (fd_recipientAddress (formData d)) = [] \<or>
       fd_recipientIdDocType (formData d) = [] \<or>
       trim (fd_recipientIdDocNumber (formData d)) = [] \<or>
       (fd_recipientEmail (formData d) \<noteq> [] \<and> \<not> emailRegex_test (fd_recipientEmail (formData d))) \<or>
       (fd_recipientPhone (formData d) \<noteq> [] \<and> \<not> phoneRegex_test (fd_recipientPhone (formData d))))"
    and it: "it \<in> set (getFoundItems s)"
    by blast+
  from handleSubmit_moves [OF reach valid it, of t]
  obtain pre first post where split: "getFoundItems s = pre @ first # post"
    and before: "(\<forall>x\<in>set pre. \<not> (item_id x = item_id it \<and> (status it = stored \<longrightarrow> status x = stored)))"
    and same: "item_id first = item_id it"
    and st: "status it = stored \<longrightarrow> status first = stored"
    and uniq: "distinct (map item_id (getFoundItems s)) \<longrightarrow> first = it"
    and run: "handleSubmit (Some it) t d s =
           (HandoverOk,
            s\<lparr>found_items := Some (pre @ post),
              handed_over_items :=
                Some (getHandedOverItems s
                      @ [mkHandedOver first t u (recipientDataOf (formData d))])\<rparr>)"
    by blast
  note rec = archived_record [of first t u "formData d"]
  show "(\<exists>pre first post.
         getFoundItems s = pre @ first # post \<and>
         (\<forall>x\<in>set pre.
              \<not> (item_id x = item_id it \<and> (status it = stored \<longrightarrow> status x = stored))) \<and>
         item_id first = item_id it \<and>
         (status it = stored \<longrightarrow> status first = stored) \<and>
         (distinct (map item_id (getFoundItems s)) \<longrightarrow> first = it) \<and>
         handleSubmit (Some it) t d s =
           (HandoverOk,
            s\<lparr>found_items := Some (pre @ post),
              handed_over_items :=
                Some (getHandedOverItems s
                      @ [mkHandedOver first t u (recipientDataOf (formData d))])\<rparr>) \<and>
         FoundItem.truncate (mkHandedOver first t u (recipientDataOf (formData d)))
           = first\<lparr>status := handed_over\<rparr> \<and>
         handedOverAt (mkHandedOver first t u (recipientDataOf (formData d))) = t \<and>
         handedOverByUserId (mkHandedOver first t u (recipientDataOf (formData d))) = u \<and>
         recipientName (mkHandedOver first t u (recipientDataOf (formData d)))
           = trim (fd_recipientName (formData d)) \<and>
         recipientAddress (mkHandedOver first t u (recipientDataOf (formData d)))
           = trim (fd_recipientAddress (formData d)) \<and>
         recipientEmail (mkHandedOver first t u (recipientDataOf (formData d)))
           = orUndefined (trim (fd_recipientEmail (formData d))) \<and>
         recipientPhone (mkHandedOver first t u (recipientDataOf (formData d)))
           = orUndefined (trim (fd_recipientPhone (formData d))) \<and>
         recipientIdDocType (mkHandedOver first t u (recipientDataOf (formData d)))
           = Some (fd_recipientIdDocType (formData d)) \<and>
         recipientIdDocNumber (mkHandedOver first t u (recipientDataOf (formData d)))
           = Some (trim (fd_recipientIdDocNumber (formData d))))"
  proof (rule exI [of _ pre], rule exI [of _ first], rule exI [of _ post], intro conjI)
    show "getFoundItems s = pre @ first # post" by (rule split)
    show "(\<forall>x\<in>set pre. \<not> (item_id x = item_id it \<and> (status it = stored \<longrightarrow> status x = stored)))"
      by (rule before)
    show "item_id first = item_id it" by (rule same)
    show "status it = stored \<longrightarrow> status first = stored" by (rule st)
    show "distinct (map item_id (getFoundItems s)) \<longrightarrow> first = it" by (rule uniq)
    show "handleSubmit (Some it) t d s =
           (HandoverOk,
            s\<lparr>found_items := Some (pre @ post),
              handed_over_items :=
                Some (getHandedOverItems s
                      @ [mkHandedOver first t u (recipientDataOf (formData d))])\<rparr>)"
      by (rule run)
  qed (simp_all only: rec)
qed

theorem handleSubmit_atomicity_witness:
  "snd (handleSubmit (Some (exItem (js ''6553F10000000000'') (js ''2023-11-14'') stored)) (js ''t1'')
          (exDialog (exForm (js ''Nagy Bela'') (js ''nagy@example'')))
          (exStorage [exItem (js ''6553F10000000000'') (js ''2023-11-14'') stored] []))
     = exStorage [exItem (js ''6553F10000000000'') (js ''2023-11-14'') stored] [] \<and>
   trim [0xA0, 0x2003] = [] \<and>
   snd (handleSubmit (Some (exItem (js ''6553F10000000000'') (js ''2023-11-14'') stored)) (js ''t1'')
          (exDialog (exForm [0xA0, 0x2003] []))
          (exStorage [exItem (js ''6553F10000000000'') (js ''2023-11-14'') stored] []))
     = exStorage [exItem (js ''6553F10000000000'') (js ''2023-11-14'') stored] [] \<and>
   handleSubmit (Some (exItem (js ''6553F10000000000'') (js ''2023-11-14'') stored)) (js ''t1'')
          (exDialog (exForm (js '' Nagy Bela '') (js ''nagy@example.com'')))
          (exStorage [exItem (js ''6553F10000000000'') (js ''2023-11-14'') stored] [])
     = (HandoverOk,
        exStorage []
          [mkHandedOver (exItem (js ''6553F10000000000'') (js ''2023-11-14'') stored) (js ''t1'') (js ''2'')
             (recipientDataOf (exForm (js '' Nagy Bela '') (js ''nagy@example.com'')))])"
proof -
  let ?it = "exItem (js ''6553F10000000000'') (js ''2023-11-14'') stored"
  let ?s = "exStorage [?it] []"
  let ?bad = "exDialog (exForm (js ''Nagy Bela'') (js ''nagy@example''))"
  let ?nbsp = "exDialog (exForm [0xA0, 0x2003] [])"
  let ?good = "exDialog (exForm (js '' Nagy Bela '') (js ''nagy@example.com''))"
  have reach: "isAuthenticated (exDialog f) \<and> handoverUserId (exDialog f) = Some (js ''2'') \<and>
               js ''2'' \<noteq> [] \<and> isScanned (exDialog f)" for f
    by (simp add: exDialog_def js_def)
  have form: "formData (exDialog f) = f" for f
    by (simp add: exDialog_def)
  have bad: "fd_recipientEmail (formData ?bad) \<noteq> [] \<and>
             \<not> emailRegex_test (fd_recipientEmail (formData ?bad))"
    by code_simp
  have sp: "trim [0xA0, 0x2003] = []" by code_simp
  have nbsp: "trim (fd_recipientName (formData ?nbsp)) = []"
    using sp by (simp add: form exForm_def)
  have good: "\<not> (trim (fd_recipientName (formData ?good)) = [] \<or>
       trim (fd_recipientAddress (formData ?good)) = [] \<or>
       fd_recipientIdDocType (formData ?good) = [] \<or>
       trim (fd_recipientIdDocNumber (formData ?good)) = [] \<or>
       (fd_recipientEmail (formData ?good) \<noteq> [] \<and>
          \<not> emailRegex_test (fd_recipientEmail (formData ?good))) \<or>
       (fd_recipientPhone (formData ?good) \<noteq> [] \<and>
          \<not> phoneRegex_test (fd_recipientPhone (formData ?good))))"
    by code_simp
  have items: "getFoundItems ?s = [?it]" and arch: "getHandedOverItems ?s = []"
    by (simp_all add: exStorage_def getFoundItems_def getHandedOverItems_def)
  have it: "?it \<in> set (getFoundItems ?s)" using items by simp
  have upd: "?s\<lparr>found_items := Some [], handed_over_items := Some hs\<rparr> = exStorage [] hs" for hs
    by (simp add: exStorage_def)
  from handleSubmit_atomicity [of ?bad "js ''2''" "Some ?it" "js ''t1''" ?s ?it]
    reach [of "exForm (js ''Nagy Bela'') (js ''nagy@example'')"] bad
  have a: "snd (handleSubmit (Some ?it) (js ''t1'') ?bad ?s) = ?s"
    by blast
  from handleSubmit_atomicity [of ?nbsp "js ''2''" "Some ?it" "js ''t1''" ?s ?it]
    reach [of "exForm [0xA0, 0x2003] []"] nbsp
  have n: "snd (handleSubmit (Some ?it) (js ''t1'') ?nbsp ?s) = ?s"
    by blast
  from handleSubmit_atomicity [of ?good "js ''2''" "Some ?it" "js ''t1''" ?s ?it]
    reach [of "exForm (js '' Nagy Bela '') (js ''nagy@example.com'')"] good it
  obtain pre first post where split: "getFoundItems ?s = pre @ first # post"
    and run: "handleSubmit (Some ?it) (js ''t1'') ?good ?s =
           (HandoverOk,
            ?s\<lparr>found_items := Some (pre @ post),
              handed_over_items :=
                Some (getHandedOverItems ?s
                      @ [mkHandedOver first (js ''t1'') (js ''2'')
                           (recipientDataOf (formData ?good))])\<rparr>)"
    by blast
  from split items have "pre = [] \<and> first = ?it \<and> post = []"
    by (cases pre) simp_all
  with run have b: "handleSubmit (Some ?it) (js ''t1'') ?good ?s
     = (HandoverOk,
        exStorage []
          [mkHandedOver ?it (js ''t1'') (js ''2'')
             (recipientDataOf (exForm (js '' Nagy Bela '') (js ''nagy@example.com'')))])"
    by (simp add: arch upd form)
  from a sp n b show ?thesis by (intro conjI)
qed

end
